theory Spec2Isabelle
  imports Main "HOL-Library.Word" "HOL-Library.Sublist"
begin

unbundle bit_operations_syntax

section \<open>C library routines the firmware relies on\<close>

text \<open>
  Buffers are lists of characters. A C string is the part of a buffer in front of its
  first NUL byte; \<open>strstr\<close> and \<open>strchr\<close> return the offset of the first match
  (the C functions return the pointer at that offset, \<open>None\<close> is the null pointer).
\<close>

type_synonym byte = "8 word"

definition NUL :: char where
  "NUL = CHR 0x00"

definition CRLF :: string where
  "CRLF = [CHR 0x0D, CHR 0x0A]"

definition cstr :: "string \<Rightarrow> string" where
  "cstr buf = takeWhile (\<lambda>c. c \<noteq> NUL) buf"

fun strstr :: "string \<Rightarrow> string \<Rightarrow> nat option" where
  "strstr [] needle = (if needle = [] then Some 0 else None)"
| "strstr (c # cs) needle =
     (if prefix needle (c # cs) then Some 0 else map_option Suc (strstr cs needle))"

fun strchr :: "string \<Rightarrow> char \<Rightarrow> nat option" where
  "strchr [] ch = None"
| "strchr (c # cs) ch = (if c = ch then Some 0 else map_option Suc (strchr cs ch))"

definition found :: "nat option \<Rightarrow> bool" where
  "found p = (p \<noteq> None)"

definition isspace_c :: "char \<Rightarrow> bool" where
  "isspace_c c = ((of_char c :: nat) = 32 \<or> (9 \<le> (of_char c :: nat) \<and> (of_char c :: nat) \<le> 13))"

definition isdigit_c :: "char \<Rightarrow> bool" where
  "isdigit_c c = (48 \<le> (of_char c :: nat) \<and> (of_char c :: nat) \<le> 57)"

fun atoi_digits :: "string \<Rightarrow> int \<Rightarrow> int" where
  "atoi_digits [] acc = acc"
| "atoi_digits (c # cs) acc =
     (if isdigit_c c then atoi_digits cs (acc * 10 + (int (of_char c) - 48)) else acc)"

text \<open>
  \<open>atoi\<close> as the C library of the target provides it: leading white space, an optional
  sign, then decimal digits; the value saturates at the bounds of a 32-bit \<open>long\<close>.
\<close>

definition atoi :: "string \<Rightarrow> int" where
  "atoi s =
     (let t = dropWhile isspace_c s;
          v = (case t of
                 [] \<Rightarrow> 0
               | c # cs \<Rightarrow>
                   if c = CHR ''-'' then - atoi_digits cs 0
                   else if c = CHR ''+'' then atoi_digits cs 0
                   else atoi_digits t 0)
      in max (- 2147483648) (min 2147483647 v))"

definition digit_char :: "nat \<Rightarrow> char" where
  "digit_char d = ''0123456789'' ! d"

function dec_nat :: "nat \<Rightarrow> string" where
  "dec_nat n = (if n < 10 then [digit_char n] else dec_nat (n div 10) @ [digit_char (n mod 10)])"
  by pat_completeness auto
termination
  by (relation "measure id") auto

declare dec_nat.simps [simp del]

text \<open>\<open>%d\<close> of an \<open>int\<close>, \<open>%zu\<close> of a \<open>size_t\<close>.\<close>

definition dec_int :: "int \<Rightarrow> string" where
  "dec_int i = (if i < 0 then CHR ''-'' # dec_nat (nat (- i)) else dec_nat (nat i))"

text \<open>\<open>snprintf(buf, size, ...)\<close> keeps the first \<open>size - 1\<close> characters of the formatted text.\<close>

definition snprintf :: "nat \<Rightarrow> string \<Rightarrow> string" where
  "snprintf cap formatted = take (cap - 1) formatted"

text \<open>
  Behaviour the C standard leaves undefined is a value of its own: a result
  \<open>Inl f\<close> says that the call ran into the fault \<open>f\<close> and has no defined outcome.
\<close>

datatype fault = Out_Of_Bounds_Read | Buffer_Overrun | Null_Dereference | Signed_Overflow

datatype esp_err_t =
    ESP_OK
  | ESP_FAIL
  | ESP_ERR_INVALID_ARG
  | ESP_ERR_INVALID_STATE
  | ESP_ERR_TIMEOUT
  | ESP_ERR_NOT_FOUND

section \<open>Modem session (sim7670g\_modem.c)\<close>

datatype sim_status_t = SIM_ERROR | SIM_LOCKED | SIM_READY

datatype reg_status_t =
    REG_UNKNOWN
  | REG_NOT_REGISTERED
  | REG_OK_HOME
  | REG_SEARCHING
  | REG_DENIED
  | REG_OK_ROAMING

datatype sim7670g_event_t =
    SIM7670G_EVENT_INITIALIZED
  | SIM7670G_EVENT_SIM_READY
  | SIM7670G_EVENT_NETWORK_REGISTERED
  | SIM7670G_EVENT_PDP_ACTIVATED
  | SIM7670G_EVENT_CONNECTION_LOST
  | SIM7670G_EVENT_ERROR

record sim7670g_status_t =
  status_initialized :: bool
  at_responsive :: bool
  sim_status :: sim_status_t
  registration_status :: reg_status_t
  signal_quality :: int
  pdp_active :: bool
  local_ip :: string
  operator_name :: string

text \<open>
  The static \<open>modem_state\<close>. \<open>event_callback\<close> says whether a callback is registered;
  \<open>notified\<close> is the sequence of events handed to it so far.
\<close>

record modem_state =
  status :: sim7670g_status_t
  event_callback :: bool
  initialized :: bool
  tcp_connected :: bool
  tcp_host :: string
  tcp_port :: int
  notified :: "sim7670g_event_t list"

definition notify_event :: "sim7670g_event_t \<Rightarrow> modem_state \<Rightarrow> modem_state" where
  "notify_event ev ms = (if event_callback ms then ms\<lparr>notified := notified ms @ [ev]\<rparr> else ms)"

subsection \<open>Command engine: send\_at\_command\<close>

text \<open>
  What the serial channel does during one transaction: whether the mutex is obtained
  within its bound, whether \<open>uart_write_bytes\<close> reports a non-negative count, and the
  bytes returned by each \<open>uart_read_bytes\<close> call issued before the deadline (an empty
  chunk is a read that returned nothing). The driver never returns more than was asked for.
\<close>

record at_env =
  at_mutex_free :: bool
  at_write_ok :: bool
  at_reads :: "string list"

definition AT_RESPONSE_BUFFER_SIZE :: nat where
  "AT_RESPONSE_BUFFER_SIZE = 4096"

definition at_complete :: "string \<Rightarrow> bool" where
  "at_complete text =
     (found (strstr text ''OK'') \<or> found (strstr text ''ERROR'') \<or> found (strstr text ''FAIL''))"

fun at_read_loop :: "string list \<Rightarrow> string \<Rightarrow> string" where
  "at_read_loop [] buf = buf"
| "at_read_loop (chunk # later) buf =
     (if length buf < AT_RESPONSE_BUFFER_SIZE - 1 then
        (let got = take (AT_RESPONSE_BUFFER_SIZE - length buf - 1) chunk in
         if got \<noteq> [] then
           (let buf' = buf @ got in
            if at_complete (cstr buf') then buf' else at_read_loop later buf')
         else at_read_loop later buf)
      else buf)"

text \<open>
  The outcome of a transaction: the returned flag, the bytes accumulated in
  \<open>at_response_buffer\<close> by this call (\<open>total_read\<close> is their number), and what
  \<open>strcpy\<close> put into the caller's \<open>response\<close> buffer, if anything.
\<close>

record at_reply =
  at_result :: bool
  at_buffer :: string
  at_copied :: "string option"

definition total_read :: "at_reply \<Rightarrow> nat" where
  "total_read r = length (at_buffer r)"

definition at_text :: "at_reply \<Rightarrow> string" where
  "at_text r = cstr (at_buffer r)"

definition at_not_run :: at_reply where
  "at_not_run = \<lparr>at_result = False, at_buffer = [], at_copied = None\<rparr>"

text \<open>
  \<open>command\<close> is \<open>None\<close> for a null pointer. \<open>response\<close> is \<open>None\<close> for a null pointer
  and otherwise the capacity of the caller's buffer: \<open>strcpy\<close> is unbounded, so a text
  that does not fit with its terminator overruns that buffer.
\<close>

definition send_at_command ::
  "modem_state \<Rightarrow> string option \<Rightarrow> nat option \<Rightarrow> at_env \<Rightarrow> fault + at_reply" where
  "send_at_command ms command response env =
     (if \<not> initialized ms \<or> command = None then Inr at_not_run
      else if \<not> at_mutex_free env then Inr at_not_run
      else if \<not> at_write_ok env then Inr at_not_run
      else
        (let buf = at_read_loop (at_reads env) [];
             ok = (0 < length buf \<and> found (strstr (cstr buf) ''OK''))
         in case response of
              None \<Rightarrow> Inr \<lparr>at_result = ok, at_buffer = buf, at_copied = None\<rparr>
            | Some cap \<Rightarrow>
                if 0 < length buf then
                  (if cap \<le> length (cstr buf) then Inl Buffer_Overrun
                   else Inr \<lparr>at_result = ok, at_buffer = buf, at_copied = Some (cstr buf)\<rparr>)
                else Inr \<lparr>at_result = ok, at_buffer = buf, at_copied = None\<rparr>))"

text \<open>
  A caller's local \<open>response\<close> array after a transaction: the copied text, or what the
  array held before when nothing was copied.
\<close>

definition response_after :: "string \<Rightarrow> at_reply \<Rightarrow> string" where
  "response_after before r = (case at_copied r of Some t \<Rightarrow> t | None \<Rightarrow> before)"

subsection \<open>Registration query and readiness\<close>

definition reg_status_of_code :: "int \<Rightarrow> reg_status_t" where
  "reg_status_of_code code =
     (if code = 0 then REG_NOT_REGISTERED
      else if code = 1 then REG_OK_HOME
      else if code = 2 then REG_SEARCHING
      else if code = 3 then REG_DENIED
      else if code = 5 then REG_OK_ROAMING
      else REG_UNKNOWN)"

definition set_registration :: "reg_status_t \<Rightarrow> modem_state \<Rightarrow> modem_state" where
  "set_registration r ms = ms\<lparr>status := (status ms)\<lparr>registration_status := r\<rparr>\<rparr>"

text \<open>
  \<open>uninit\<close> is the indeterminate content of the local \<open>response[256]\<close> on entry.
\<close>

definition sim7670g_get_registration_status ::
  "modem_state \<Rightarrow> string \<Rightarrow> at_env \<Rightarrow> fault + (reg_status_t \<times> modem_state)" where
  "sim7670g_get_registration_status ms uninit env =
     (case send_at_command ms (Some ''AT+CREG?'') (Some 256) env of
        Inl f \<Rightarrow> Inl f
      | Inr r \<Rightarrow>
          if \<not> at_result r then Inr (REG_UNKNOWN, set_registration REG_UNKNOWN ms)
          else
            (let response = response_after uninit r in
             case strstr response ''+CREG:'' of
               None \<Rightarrow> Inr (REG_UNKNOWN, set_registration REG_UNKNOWN ms)
             | Some stat_start \<Rightarrow>
                 (case strchr (drop stat_start response) CHR '','' of
                    None \<Rightarrow> Inr (REG_UNKNOWN, set_registration REG_UNKNOWN ms)
                  | Some comma \<Rightarrow>
                      (let code = atoi (drop (stat_start + comma + 1) response);
                           reg_status = reg_status_of_code code;
                           ms' = set_registration reg_status ms
                       in if reg_status = REG_OK_HOME \<or> reg_status = REG_OK_ROAMING
                          then Inr (reg_status, notify_event SIM7670G_EVENT_NETWORK_REGISTERED ms')
                          else Inr (reg_status, ms')))))"

definition sim7670g_is_ready :: "modem_state \<Rightarrow> bool" where
  "sim7670g_is_ready ms =
     (initialized ms \<and>
      at_responsive (status ms) \<and>
      sim_status (status ms) = SIM_READY \<and>
      (registration_status (status ms) = REG_OK_HOME \<or>
       registration_status (status ms) = REG_OK_ROAMING) \<and>
      pdp_active (status ms))"

definition sim7670g_activate_pdp_context ::
  "modem_state \<Rightarrow> at_env \<Rightarrow> fault + (bool \<times> modem_state)" where
  "sim7670g_activate_pdp_context ms env =
     (case send_at_command ms (Some ''AT+CGACT=1,1'') None env of
        Inl f \<Rightarrow> Inl f
      | Inr r \<Rightarrow>
          (let ms' = ms\<lparr>status := (status ms)\<lparr>pdp_active := at_result r\<rparr>\<rparr>
           in if at_result r
              then Inr (True, notify_event SIM7670G_EVENT_PDP_ACTIVATED ms')
              else Inr (False, ms')))"

subsection \<open>Socket layer: connect and disconnect\<close>

text \<open>
  The four transactions of a connect (network open, close of socket 0, socket open, status
  query) each meet the serial channel in a state of their own.
\<close>

record connect_env =
  netopen_env :: at_env
  cipclose_env :: at_env
  cipopen_env :: at_env
  status_env :: at_env

definition cipopen_command :: "string \<Rightarrow> int \<Rightarrow> string" where
  \<open>cipopen_command host port =
     snprintf 128 (''AT+CIPOPEN=0,"TCP","'' @ host @ ''",'' @ dec_int port)\<close>

definition expected_binding :: "string \<Rightarrow> int \<Rightarrow> string" where
  \<open>expected_binding host port =
     snprintf 64 (''0,"TCP","'' @ host @ ''",'' @ dec_int port)\<close>

definition store_connection :: "string \<Rightarrow> int \<Rightarrow> modem_state \<Rightarrow> modem_state" where
  "store_connection host port ms =
     ms\<lparr>tcp_host := take 63 host, tcp_port := port, tcp_connected := True\<rparr>"

definition sim7670g_tcp_connect ::
  "modem_state \<Rightarrow> string option \<Rightarrow> int \<Rightarrow> string \<Rightarrow> connect_env
     \<Rightarrow> fault + (esp_err_t \<times> modem_state)" where
  "sim7670g_tcp_connect ms host_ptr port uninit env =
     (case host_ptr of
        None \<Rightarrow> Inr (ESP_ERR_INVALID_ARG, ms)
      | Some host \<Rightarrow>
          if port \<le> 0 then Inr (ESP_ERR_INVALID_ARG, ms)
          else if \<not> sim7670g_is_ready ms then Inr (ESP_ERR_INVALID_STATE, ms)
          else
            (case send_at_command ms (Some ''AT+NETOPEN'') (Some 256) (netopen_env env) of
               Inl f \<Rightarrow> Inl f
             | Inr r1 \<Rightarrow>
                 (let response1 = response_after uninit r1 in
                  if \<not> (found (strstr response1 ''+NETOPEN: 0'') \<or>
                          found (strstr response1 ''already opened''))
                  then Inr (ESP_FAIL, ms)
                  else
                    (case send_at_command ms (Some ''AT+CIPCLOSE=0'') (Some 256) (cipclose_env env) of
                       Inl f \<Rightarrow> Inl f
                     | Inr r2 \<Rightarrow>
                         (let response2 = response_after response1 r2 in
                          case send_at_command ms (Some (cipopen_command host port)) (Some 256)
                                 (cipopen_env env) of
                            Inl f \<Rightarrow> Inl f
                          | Inr r3 \<Rightarrow>
                              if \<not> at_result r3 then Inr (ESP_FAIL, ms)
                              else
                                (let response3 = response_after response2 r3 in
                                 if found (strstr response3 ''OK'') then
                                   (case send_at_command ms (Some ''AT+CIPOPEN?'') (Some 256)
                                          (status_env env) of
                                      Inl f \<Rightarrow> Inl f
                                    | Inr r4 \<Rightarrow>
                                        if at_result r4 \<and>
                                           found (strstr (response_after response3 r4)
                                                    (expected_binding host port))
                                        then Inr (ESP_OK, store_connection host port ms)
                                        else Inr (ESP_FAIL, ms))
                                 else Inr (ESP_FAIL, ms)))))))"

definition clear_connection :: "modem_state \<Rightarrow> modem_state" where
  "clear_connection ms = ms\<lparr>tcp_connected := False, tcp_host := [], tcp_port := 0\<rparr>"

definition sim7670g_tcp_disconnect ::
  "modem_state \<Rightarrow> at_env \<Rightarrow> fault + (esp_err_t \<times> modem_state)" where
  "sim7670g_tcp_disconnect ms env =
     (if \<not> tcp_connected ms then Inr (ESP_OK, ms)
      else
        (case send_at_command ms (Some ''AT+CIPCLOSE=0'') None env of
           Inl f \<Rightarrow> Inl f
         | Inr r \<Rightarrow> Inr (ESP_OK, clear_connection ms)))"

definition sim7670g_tcp_is_connected :: "modem_state \<Rightarrow> bool" where
  "sim7670g_tcp_is_connected ms = tcp_connected ms"

subsection \<open>Socket layer: send (sim7670g\_modem.c)\<close>

text \<open>
  One pass through the retry loop meets the channel as a \<open>send_attempt\<close>: the bytes
  returned by the single read after the status query, whether the send command was
  written, the reads of the prompt wait, the count returned when the payload was written
  and the reads of the confirmation wait.
\<close>

record send_attempt =
  status_read :: string
  cmd_write_ok :: bool
  prompt_reads :: "string list"
  data_written :: int
  confirm_reads :: "string list"

record send_env =
  send_mutex_free :: bool
  attempt :: "nat \<Rightarrow> send_attempt"

fun prompt_loop :: "string list \<Rightarrow> string \<Rightarrow> bool" where
  "prompt_loop [] buf = False"
| "prompt_loop (chunk # later) buf =
     (let got = take (256 - length buf - 1) chunk in
      if got \<noteq> [] then
        (let buf' = buf @ got in
         if found (strstr (cstr buf') ''ERROR'') then False
         else if found (strstr (cstr buf') ''>'') then True
         else prompt_loop later buf')
      else prompt_loop later buf)"

text \<open>
  The confirmation scans run \<open>for (i = 0; i <= total_read - n; i++) memcmp(&buf[i], pat, n)\<close>
  with an unsigned \<open>total_read\<close>: when fewer than \<open>n\<close> bytes have been read the bound
  wraps around and the scan leaves the buffer.
\<close>

definition memscan :: "string \<Rightarrow> string \<Rightarrow> fault + bool" where
  "memscan buf pat =
     (if length buf < length pat then Inl Out_Of_Bounds_Read else Inr (found (strstr buf pat)))"

fun confirm_loop :: "string list \<Rightarrow> string \<Rightarrow> fault + bool" where
  "confirm_loop [] buf = Inr False"
| "confirm_loop (chunk # later) buf =
     (if length buf < AT_RESPONSE_BUFFER_SIZE - 1 then
        (let got = take (AT_RESPONSE_BUFFER_SIZE - length buf - 1) chunk in
         if got \<noteq> [] then
           (let buf' = buf @ got in
            case memscan buf' ''SEND OK'' of
              Inl f \<Rightarrow> Inl f
            | Inr True \<Rightarrow> Inr True
            | Inr False \<Rightarrow>
                (case memscan buf' ''+CIPSEND:'' of
                   Inl f \<Rightarrow> Inl f
                 | Inr True \<Rightarrow> Inr True
                 | Inr False \<Rightarrow>
                     (case memscan buf' ''ERROR'' of
                        Inl f \<Rightarrow> Inl f
                      | Inr True \<Rightarrow> Inr False
                      | Inr False \<Rightarrow> confirm_loop later buf')))
         else confirm_loop later buf)
      else Inr False)"

datatype attempt_result = Sent | Abort | Retry

definition cipsend_command :: "nat \<Rightarrow> string" where
  "cipsend_command len = snprintf 128 (''AT+CIPSEND=0,'' @ dec_nat len)"

definition send_attempt_once :: "bool \<Rightarrow> nat \<Rightarrow> send_attempt \<Rightarrow> fault + attempt_result" where
  \<open>send_attempt_once data_in_bounds len a =
     (let status_buffer = take 127 (status_read a) in
      if status_buffer \<noteq> [] \<and> \<not> found (strstr (cstr status_buffer) ''+CIPOPEN: 0,"TCP"'')
      then Inr Abort
      else if 128 \<le> length (cipsend_command len @ CRLF) then Inr Abort
      else if \<not> cmd_write_ok a then Inr Retry
      else if \<not> prompt_loop (prompt_reads a) [] then Inr Retry
      else if \<not> data_in_bounds then Inl Out_Of_Bounds_Read
      else if data_written a \<noteq> int len then Inr Retry
      else
        (case confirm_loop (confirm_reads a) [] of
           Inl f \<Rightarrow> Inl f
         | Inr True \<Rightarrow> Inr Sent
         | Inr False \<Rightarrow> Inr Retry))\<close>

function send_retry_loop ::
  "bool \<Rightarrow> nat \<Rightarrow> (nat \<Rightarrow> send_attempt) \<Rightarrow> nat \<Rightarrow> fault + bool" where
  "send_retry_loop data_in_bounds len att retry_count =
     (if retry_count < 2 then
        (case send_attempt_once data_in_bounds len (att retry_count) of
           Inl f \<Rightarrow> Inl f
         | Inr Sent \<Rightarrow> Inr True
         | Inr Abort \<Rightarrow> Inr False
         | Inr Retry \<Rightarrow> send_retry_loop data_in_bounds len att (Suc retry_count))
      else Inr False)"
  by pat_completeness auto
termination
  by (relation "measure (\<lambda>(d, len, att, rc). 2 - rc)") auto

declare send_retry_loop.simps [simp del]

definition is_binary_byte :: "byte \<Rightarrow> bool" where
  "is_binary_byte c = (c < 9 \<or> (13 < c \<and> c < 32) \<or> 126 < c)"

text \<open>
  \<open>data\<close> is \<open>None\<close> for a null pointer and otherwise the bytes of the object it points
  to; \<open>len\<close> is the \<open>length\<close> argument. The scan for binary bytes stops at the first one.
\<close>

definition has_binary_scan :: "byte list \<Rightarrow> nat \<Rightarrow> fault + bool" where
  "has_binary_scan d len =
     (if list_ex is_binary_byte (take len d) then Inr True
      else if len \<le> length d then Inr False
      else Inl Out_Of_Bounds_Read)"

definition sim7670g_tcp_send ::
  "modem_state \<Rightarrow> byte list option \<Rightarrow> nat \<Rightarrow> send_env \<Rightarrow> fault + esp_err_t" where
  "sim7670g_tcp_send ms data len env =
     (case data of
        None \<Rightarrow> Inr ESP_ERR_INVALID_STATE
      | Some d \<Rightarrow>
          if \<not> tcp_connected ms \<or> len = 0 then Inr ESP_ERR_INVALID_STATE
          else
            (case has_binary_scan d len of
               Inl f \<Rightarrow> Inl f
             | Inr has_binary \<Rightarrow>
                 if \<not> send_mutex_free env then Inr ESP_FAIL
                 else
                   (case send_retry_loop (len \<le> length d) len (attempt env) 0 of
                      Inl f \<Rightarrow> Inl f
                    | Inr success \<Rightarrow> Inr (if success then ESP_OK else ESP_FAIL))))"

subsection \<open>Socket layer: send, the variant kept in sim7670g\_tcp\_send.c\<close>

fun prompt_loop_v2 :: "string list \<Rightarrow> bool" where
  "prompt_loop_v2 [] = False"
| "prompt_loop_v2 (chunk # later) =
     (let got = take 31 chunk in
      if got \<noteq> [] \<and> found (strchr (cstr got) CHR ''>'') then True
      else prompt_loop_v2 later)"

definition send_complete_v2 :: "string \<Rightarrow> bool" where
  "send_complete_v2 text =
     (found (strstr text ''+CIPSEND: 0,'') \<or> found (strstr text ''SEND OK''))"

fun confirm_loop_v2 :: "string list \<Rightarrow> string \<Rightarrow> string" where
  "confirm_loop_v2 [] buf = buf"
| "confirm_loop_v2 (chunk # later) buf =
     (if length buf < AT_RESPONSE_BUFFER_SIZE - 1 then
        (let got = take (AT_RESPONSE_BUFFER_SIZE - length buf - 1) chunk in
         if got \<noteq> [] then
           (let buf' = buf @ got in
            if send_complete_v2 (cstr buf') then buf' else confirm_loop_v2 later buf')
         else confirm_loop_v2 later buf)
      else buf)"

definition send_verdict_v2 :: "string \<Rightarrow> nat \<Rightarrow> bool" where
  "send_verdict_v2 text len =
     (let success = (found (strstr text ''+CIPSEND: 0,'') \<or> found (strstr text ''SEND OK''))
      in case strstr text ''+CIPSEND: 0,'' of
           Some cipsend_pos \<Rightarrow>
             (let sent_bytes = atoi (drop (cipsend_pos + 12) text)
              in if sent_bytes = int len then True else success)
         | None \<Rightarrow> if found (strstr text ''SEND OK'') then True else success)"

definition sim7670g_tcp_send_v2 ::
  "modem_state \<Rightarrow> byte list option \<Rightarrow> nat \<Rightarrow> send_env \<Rightarrow> fault + esp_err_t" where
  "sim7670g_tcp_send_v2 ms data len env =
     (case data of
        None \<Rightarrow> Inr ESP_ERR_INVALID_STATE
      | Some d \<Rightarrow>
          if \<not> tcp_connected ms \<or> len = 0 then Inr ESP_ERR_INVALID_STATE
          else if \<not> send_mutex_free env then Inr ESP_FAIL
          else
            (let a = attempt env 0 in
             if \<not> cmd_write_ok a then Inr ESP_FAIL
             else if \<not> prompt_loop_v2 (prompt_reads a) then Inr ESP_FAIL
             else if \<not> len \<le> length d then Inl Out_Of_Bounds_Read
             else if data_written a \<noteq> int len then Inr ESP_FAIL
             else
               (let text = cstr (confirm_loop_v2 (confirm_reads a) [])
                in Inr (if send_verdict_v2 text len then ESP_OK else ESP_FAIL))))"

subsection \<open>Socket layer: receive\<close>

record recv_env =
  recv_mutex_free :: bool
  recv_reads :: "string list"

definition is_upper_c :: "char \<Rightarrow> bool" where
  "is_upper_c c = (65 \<le> (of_char c :: nat) \<and> (of_char c :: nat) \<le> 90)"

text \<open>The offset in the accumulated text at which the payload is taken to start.\<close>

definition find_payload :: "string \<Rightarrow> nat option" where
  "find_payload text =
     (case (case strstr text ''RECV FROM:'' of
              Some i \<Rightarrow> Some i
            | None \<Rightarrow> strstr text ''+IPD'') of
        None \<Rightarrow> None
      | Some recv_start \<Rightarrow>
          (case strstr (drop recv_start text) ''HTTP/'' of
             Some h \<Rightarrow> Some (recv_start + h)
           | None \<Rightarrow>
               (case strstr (drop recv_start text) ''+IPD'' of
                  None \<Rightarrow> None
                | Some ipd_pos \<Rightarrow>
                    (let start = recv_start + ipd_pos + 4;
                         search_pos = start +
                           length (takeWhile (\<lambda>c. \<not> is_upper_c c) (drop start text))
                     in if search_pos < length text then Some search_pos else None))))"

text \<open>
  The receive loop yields the bytes copied to the caller (if a payload was located) and
  the number of bytes read in all.
\<close>

fun recv_loop :: "nat \<Rightarrow> string list \<Rightarrow> string \<Rightarrow> string option \<times> nat" where
  "recv_loop buffer_size [] buf = (None, length buf)"
| "recv_loop buffer_size (chunk # later) buf =
     (if length buf < AT_RESPONSE_BUFFER_SIZE - 1 then
        (let got = take (AT_RESPONSE_BUFFER_SIZE - length buf - 1) chunk in
         if got \<noteq> [] then
           (let buf' = buf @ got in
            case find_payload (cstr buf') of
              Some http_start \<Rightarrow>
                (let available_data = length buf' - http_start;
                     copy_length = (if available_data < buffer_size - 1 then available_data
                                    else buffer_size - 1)
                 in (Some (take copy_length (drop http_start buf')), length buf'))
            | None \<Rightarrow> recv_loop buffer_size later buf')
         else recv_loop buffer_size later buf)
      else (None, length buf))"

text \<open>
  \<open>received_length\<close> is the value stored through the caller's pointer (\<open>None\<close>: nothing
  was stored), \<open>received\<close> the bytes copied into the caller's buffer.
\<close>

record recv_result =
  recv_err :: esp_err_t
  received_length :: "nat option"
  received :: string

definition sim7670g_tcp_receive ::
  "modem_state \<Rightarrow> bool \<Rightarrow> nat \<Rightarrow> bool \<Rightarrow> recv_env \<Rightarrow> recv_result" where
  "sim7670g_tcp_receive ms buffer buffer_size received_length_ptr env =
     (if \<not> tcp_connected ms \<or> \<not> buffer \<or> buffer_size = 0 \<or> \<not> received_length_ptr
      then \<lparr>recv_err = ESP_ERR_INVALID_ARG, received_length = None, received = []\<rparr>
      else if \<not> recv_mutex_free env
      then \<lparr>recv_err = ESP_ERR_TIMEOUT, received_length = Some 0, received = []\<rparr>
      else
        (case recv_loop buffer_size (recv_reads env) [] of
           (Some payload, n) \<Rightarrow>
             \<lparr>recv_err = ESP_OK, received_length = Some (length payload), received = payload\<rparr>
         | (None, n) \<Rightarrow>
             if n = 0
             then \<lparr>recv_err = ESP_ERR_TIMEOUT, received_length = Some 0, received = []\<rparr>
             else \<lparr>recv_err = ESP_ERR_NOT_FOUND, received_length = Some 0, received = []\<rparr>))"

section \<open>TCP interface (modem\_tcp\_interface.c)\<close>

definition modem_tcp_connect ::
  "modem_state \<Rightarrow> string option \<Rightarrow> int \<Rightarrow> string \<Rightarrow> connect_env
     \<Rightarrow> fault + (esp_err_t \<times> modem_state)" where
  "modem_tcp_connect ms host port uninit env =
     (if host = None \<or> port \<le> 0 then Inr (ESP_ERR_INVALID_ARG, ms)
      else sim7670g_tcp_connect ms host port uninit env)"

definition modem_tcp_disconnect ::
  "modem_state \<Rightarrow> at_env \<Rightarrow> fault + (esp_err_t \<times> modem_state)" where
  "modem_tcp_disconnect ms env =
     (case sim7670g_tcp_disconnect ms env of
        Inl f \<Rightarrow> Inl f
      | Inr (ret, ms') \<Rightarrow> Inr (ESP_OK, ms'))"

definition modem_tcp_send ::
  "modem_state \<Rightarrow> byte list option \<Rightarrow> nat \<Rightarrow> send_env \<Rightarrow> fault + esp_err_t" where
  "modem_tcp_send ms data len env =
     (if data = None \<or> len = 0 then Inr ESP_ERR_INVALID_ARG
      else sim7670g_tcp_send ms data len env)"

definition modem_tcp_receive ::
  "modem_state \<Rightarrow> bool \<Rightarrow> nat \<Rightarrow> bool \<Rightarrow> recv_env \<Rightarrow> recv_result" where
  "modem_tcp_receive ms buffer buffer_size received_length_ptr env =
     (if \<not> buffer \<or> buffer_size = 0 \<or> \<not> received_length_ptr
      then \<lparr>recv_err = ESP_ERR_INVALID_ARG, received_length = None, received = []\<rparr>
      else
        (let r = sim7670g_tcp_receive ms buffer buffer_size received_length_ptr env
         in if received_length r = None then r\<lparr>received_length := Some 0\<rparr> else r))"

definition modem_tcp_is_connected :: "modem_state \<Rightarrow> bool" where
  "modem_tcp_is_connected ms = sim7670g_tcp_is_connected ms"

section \<open>WebSocket client (websocket\_client.c)\<close>

datatype websocket_state_t =
    WS_STATE_DISCONNECTED
  | WS_STATE_CONNECTING
  | WS_STATE_CONNECTED
  | WS_STATE_ERROR

datatype websocket_event_t =
    WS_EVENT_CONNECTED
  | WS_EVENT_DISCONNECTED
  | WS_EVENT_DATA_RECEIVED
  | WS_EVENT_ERROR
  | WS_EVENT_PING
  | WS_EVENT_PONG

text \<open>An event as the callback sees it; \<open>data\<close> is \<open>None\<close> for a null pointer.\<close>

record websocket_event_data_t =
  event :: websocket_event_t
  data :: "byte list option"
  data_len :: nat
  error_code :: int

record websocket_config_t =
  server_host :: string
  server_port :: int
  path :: string
  reconnect_interval_ms :: int
  ping_interval_ms :: int
  response_timeout_ms :: int
  ws_event_callback :: bool

text \<open>A created timer is stopped, armed periodically or armed once (period in microseconds).\<close>

datatype esp_timer = Stopped | Periodic int | Once int

text \<open>The static \<open>ws_client\<close>; a timer handle is \<open>None\<close> when it is null.\<close>

record ws_client_t =
  config :: websocket_config_t
  state :: websocket_state_t
  ping_timer :: "esp_timer option"
  reconnect_timer :: "esp_timer option"
  ws_initialized :: bool
  websocket_key :: string

text \<open>
  The client together with the modem below it and what has left the client so far: the
  events handed to the callback and the buffers handed to \<open>modem_tcp_send\<close>.
\<close>

record ws_world =
  ws_client :: ws_client_t
  modem :: modem_state
  delivered :: "websocket_event_data_t list"
  tcp_out :: "byte list list"

definition WS_OPCODE_CONTINUATION :: byte where "WS_OPCODE_CONTINUATION = 0x0"
definition WS_OPCODE_TEXT :: byte where "WS_OPCODE_TEXT = 0x1"
definition WS_OPCODE_BINARY :: byte where "WS_OPCODE_BINARY = 0x2"
definition WS_OPCODE_CLOSE :: byte where "WS_OPCODE_CLOSE = 0x8"
definition WS_OPCODE_PING :: byte where "WS_OPCODE_PING = 0x9"
definition WS_OPCODE_PONG :: byte where "WS_OPCODE_PONG = 0xA"

subsection \<open>Outbound frames: websocket\_send\_frame\<close>

text \<open>\<open>length\<close> is a \<open>size_t\<close>, 32 bits wide on the target.\<close>

definition frame_header :: "byte \<Rightarrow> nat \<Rightarrow> byte list" where
  "frame_header opcode len =
     (let l = (of_nat len :: 32 word) in
      (0x80 OR (opcode AND 0x0F)) #
      (if len < 126 then [0x80 OR ucast l]
       else if len < 65536 then
         [0x80 OR 126, ucast (drop_bit 8 l AND 0xFF), ucast (l AND 0xFF)]
       else
         [0x80 OR 127, 0, 0, 0, 0,
          ucast (drop_bit 24 l AND 0xFF), ucast (drop_bit 16 l AND 0xFF),
          ucast (drop_bit 8 l AND 0xFF), ucast (l AND 0xFF)]))"

definition masking_key :: "32 word \<Rightarrow> byte list" where
  "masking_key msk =
     [ucast (drop_bit 24 msk AND 0xFF), ucast (drop_bit 16 msk AND 0xFF),
      ucast (drop_bit 8 msk AND 0xFF), ucast (msk AND 0xFF)]"

definition mask_payload :: "byte list \<Rightarrow> byte list \<Rightarrow> byte list" where
  "mask_payload key payload = map (\<lambda>i. payload ! i XOR key ! (i mod 4)) [0..<length payload]"

definition ws_frame :: "byte \<Rightarrow> byte list \<Rightarrow> 32 word \<Rightarrow> byte list" where
  "ws_frame opcode payload msk =
     frame_header opcode (length payload) @ masking_key msk @
     mask_payload (masking_key msk) payload"

text \<open>
  \<open>payload\<close> is \<open>None\<close> for a null pointer, otherwise the bytes of the object pointed to;
  \<open>msk\<close> is the value \<open>esp_random()\<close> returns.
\<close>

definition payload_bytes :: "byte list option \<Rightarrow> nat \<Rightarrow> fault + byte list" where
  "payload_bytes payload len =
     (case payload of
        None \<Rightarrow> if len = 0 then Inr [] else Inl Null_Dereference
      | Some mem \<Rightarrow> if len \<le> length mem then Inr (take len mem) else Inl Out_Of_Bounds_Read)"

text \<open>Handing a finished frame to the TCP interface; the frame is logged as sent to it.\<close>

definition tcp_handoff :: "ws_world \<Rightarrow> byte list \<Rightarrow> send_env \<Rightarrow> fault + (esp_err_t \<times> ws_world)" where
  "tcp_handoff w frame env =
     (case modem_tcp_send (modem w) (Some frame) (length frame) env of
        Inl f \<Rightarrow> Inl f
      | Inr result \<Rightarrow> Inr (result, w\<lparr>tcp_out := tcp_out w @ [frame]\<rparr>))"

definition websocket_send_frame ::
  "ws_world \<Rightarrow> byte \<Rightarrow> byte list option \<Rightarrow> nat \<Rightarrow> 32 word \<Rightarrow> send_env
     \<Rightarrow> fault + (esp_err_t \<times> ws_world)" where
  "websocket_send_frame w opcode payload len msk env =
     (if 1024 < len then Inr (ESP_ERR_INVALID_ARG, w)
      else
        (case payload_bytes payload len of
           Inl f \<Rightarrow> Inl f
         | Inr p \<Rightarrow> tcp_handoff w (ws_frame opcode p msk) env))"

definition c_strlen :: "byte list \<Rightarrow> fault + nat" where
  "c_strlen mem =
     (if 0 \<in> set mem then Inr (length (takeWhile (\<lambda>b. b \<noteq> 0) mem)) else Inl Out_Of_Bounds_Read)"

text \<open>
  \<open>message\<close> is \<open>None\<close> for a null pointer, otherwise the bytes of the object pointed to.
  Whatever the length argument, the message is read as a C string up to its terminator:
  by \<open>strlen\<close> when \<open>length\<close> is 0, and by the \<open>%s\<close> of the log line that precedes the send
  in every case.
\<close>

definition log_string :: "byte list \<Rightarrow> fault + unit" where
  "log_string mem = (case c_strlen mem of Inl f \<Rightarrow> Inl f | Inr n \<Rightarrow> Inr ())"

definition websocket_client_send_text ::
  "ws_world \<Rightarrow> byte list option \<Rightarrow> nat \<Rightarrow> 32 word \<Rightarrow> send_env
     \<Rightarrow> fault + (esp_err_t \<times> ws_world)" where
  "websocket_client_send_text w message len msk env =
     (if state (ws_client w) \<noteq> WS_STATE_CONNECTED then Inr (ESP_ERR_INVALID_STATE, w)
      else
        (case message of
           None \<Rightarrow> Inr (ESP_ERR_INVALID_ARG, w)
         | Some mem \<Rightarrow>
             (case (if 0 < len then Inr len else c_strlen mem) of
                Inl f \<Rightarrow> Inl f
              | Inr msg_len \<Rightarrow>
                  (case log_string mem of
                     Inl f \<Rightarrow> Inl f
                   | Inr _ \<Rightarrow>
                       websocket_send_frame w WS_OPCODE_TEXT (Some mem) msg_len msk env))))"

subsection \<open>Disconnect\<close>

definition esp_timer_stop :: "esp_timer option \<Rightarrow> esp_timer option" where
  "esp_timer_stop t = (case t of None \<Rightarrow> None | Some _ \<Rightarrow> Some Stopped)"

definition emit :: "websocket_event_data_t \<Rightarrow> ws_world \<Rightarrow> ws_world" where
  "emit ev w =
     (if ws_event_callback (config (ws_client w)) then w\<lparr>delivered := delivered w @ [ev]\<rparr>
      else w)"

definition plain_event :: "websocket_event_t \<Rightarrow> websocket_event_data_t" where
  "plain_event e = \<lparr>event = e, data = None, data_len = 0, error_code = 0\<rparr>"

text \<open>What a disconnect meets: the value drawn to mask the Close frame and the channel
  during the send and during the socket close.\<close>

record disconnect_env =
  close_mask :: "32 word"
  close_send :: send_env
  close_at :: at_env

definition websocket_client_disconnect ::
  "ws_world \<Rightarrow> disconnect_env \<Rightarrow> fault + (esp_err_t \<times> ws_world)" where
  "websocket_client_disconnect w env =
     (if state (ws_client w) \<noteq> WS_STATE_CONNECTED then Inr (ESP_OK, w)
      else
        (let w1 = w\<lparr>ws_client := (ws_client w)
                     \<lparr>ping_timer := esp_timer_stop (ping_timer (ws_client w)),
                      reconnect_timer := esp_timer_stop (reconnect_timer (ws_client w))\<rparr>\<rparr>
         in case websocket_send_frame w1 WS_OPCODE_CLOSE None 0 (close_mask env) (close_send env) of
              Inl f \<Rightarrow> Inl f
            | Inr (sent, w2) \<Rightarrow>
                (case modem_tcp_disconnect (modem w2) (close_at env) of
                   Inl f \<Rightarrow> Inl f
                 | Inr (ret, ms') \<Rightarrow>
                     (let w3 = w2\<lparr>modem := ms',
                                   ws_client := (ws_client w2)\<lparr>state := WS_STATE_DISCONNECTED\<rparr>\<rparr>
                      in Inr (ESP_OK, emit (plain_event WS_EVENT_DISCONNECTED) w3)))))"

subsection \<open>Handshake\<close>

definition websocket_generate_key :: "ws_client_t \<Rightarrow> ws_client_t" where
  "websocket_generate_key c = c\<lparr>websocket_key := snprintf 25 ''x3JJHMbDL1EzLkh9GBhXDw==''\<rparr>"

definition handshake_request :: "ws_client_t \<Rightarrow> string" where
  "handshake_request c =
     snprintf 512
       (''GET '' @ path (config c) @ '' HTTP/1.1'' @ CRLF @
        ''Host: '' @ server_host (config c) @ '':'' @ dec_int (server_port (config c)) @ CRLF @
        ''Upgrade: websocket'' @ CRLF @
        ''Connection: Upgrade'' @ CRLF @
        ''Sec-WebSocket-Key: '' @ websocket_key c @ CRLF @
        ''Sec-WebSocket-Version: 13'' @ CRLF @
        CRLF)"

definition websocket_parse_response :: "string \<Rightarrow> esp_err_t" where
  "websocket_parse_response response =
     (if \<not> found (strstr response ''101 Switching Protocols'') then ESP_FAIL
      else if \<not> found (strstr response ''Upgrade: websocket'') \<and>
              \<not> found (strstr response ''upgrade: websocket'') then ESP_FAIL
      else if \<not> found (strstr response ''Connection: Upgrade'') \<and>
              \<not> found (strstr response ''connection: upgrade'') then ESP_FAIL
      else if \<not> found (strstr response ''Sec-WebSocket-Accept:'') \<and>
              \<not> found (strstr response ''sec-websocket-accept:'') then ESP_FAIL
      else ESP_OK)"

record handshake_env =
  handshake_send :: send_env
  handshake_recv :: recv_env

definition websocket_perform_handshake ::
  "ws_world \<Rightarrow> handshake_env \<Rightarrow> fault + (esp_err_t \<times> ws_world)" where
  "websocket_perform_handshake w env =
     (let c = websocket_generate_key (ws_client w);
          w1 = w\<lparr>ws_client := c\<rparr>;
          request = map of_char (cstr (handshake_request c))
      in case tcp_handoff w1 request (handshake_send env) of
           Inl f \<Rightarrow> Inl f
         | Inr (ret, w2) \<Rightarrow>
             (if ret \<noteq> ESP_OK then Inr (ret, w2)
              else
                (let r = modem_tcp_receive (modem w2) True 1023 True (handshake_recv env) in
                 if recv_err r \<noteq> ESP_OK \<or> received_length r = Some 0 then Inr (ESP_FAIL, w2)
                 else Inr (websocket_parse_response (cstr (received r)), w2))))"

subsection \<open>Inbound frames: the parsing step of websocket\_client\_process\<close>

text \<open>
  \<open>rx_buffer\<close> is the static receive array as it stands after the receive; a read beyond
  the bytes the model is given is a fault. The fields are the opcode, the offset of the
  payload and its length. Plain \<open>char\<close> is unsigned on the target.
\<close>

definition peek :: "byte list \<Rightarrow> nat \<Rightarrow> fault + byte" where
  "peek buf i = (if i < length buf then Inr (buf ! i) else Inl Out_Of_Bounds_Read)"

definition parse_frame :: "byte list \<Rightarrow> fault + (byte \<times> nat \<times> nat)" where
  "parse_frame rx_buffer =
     (case peek rx_buffer 0 of
        Inl f \<Rightarrow> Inl f
      | Inr b0 \<Rightarrow>
          (case peek rx_buffer 1 of
             Inl f \<Rightarrow> Inl f
           | Inr b1 \<Rightarrow>
               (let opcode = b0 AND 0x0F;
                    payload_len = unat (b1 AND 0x7F)
                in if payload_len = 126 then
                     (case peek rx_buffer 2 of
                        Inl f \<Rightarrow> Inl f
                      | Inr b2 \<Rightarrow>
                          (case peek rx_buffer 3 of
                             Inl f \<Rightarrow> Inl f
                           | Inr b3 \<Rightarrow>
                               Inr (opcode, 4,
                                    unat (push_bit 8 (ucast b2 :: 32 word) OR ucast b3))))
                   else if payload_len = 127 then Inr (opcode, 10, payload_len)
                   else Inr (opcode, 2, payload_len))))"

text \<open>The bytes an event or a Pong reply refers to: \<open>payload_len\<close> bytes from \<open>payload_start\<close>.\<close>

definition payload_slice :: "byte list \<Rightarrow> nat \<Rightarrow> nat \<Rightarrow> byte list" where
  "payload_slice rx_buffer payload_start payload_len = take payload_len (drop payload_start rx_buffer)"

record process_env =
  process_recv :: recv_env
  rx_before :: "byte list"
  pong_mask :: "32 word"
  pong_send :: send_env
  process_close :: disconnect_env

definition dispatch_frame ::
  "ws_world \<Rightarrow> byte list \<Rightarrow> nat \<Rightarrow> process_env \<Rightarrow> fault + (esp_err_t \<times> ws_world)" where
  "dispatch_frame w rx_buffer received_len env =
     (case parse_frame rx_buffer of
        Inl f \<Rightarrow> Inl f
      | Inr (opcode, payload_start, payload_len) \<Rightarrow>
          if opcode = WS_OPCODE_TEXT \<or> opcode = WS_OPCODE_BINARY then
            (if ws_event_callback (config (ws_client w)) \<and> 0 < payload_len \<and>
                payload_start < received_len
             then Inr (ESP_OK,
                       emit \<lparr>event = WS_EVENT_DATA_RECEIVED,
                             data = Some (payload_slice rx_buffer payload_start payload_len),
                             data_len = payload_len, error_code = 0\<rparr> w)
             else Inr (ESP_OK, w))
          else if opcode = WS_OPCODE_PING then
            (case websocket_send_frame w WS_OPCODE_PONG (Some (drop payload_start rx_buffer))
                    payload_len (pong_mask env) (pong_send env) of
               Inl f \<Rightarrow> Inl f
             | Inr (sent, w') \<Rightarrow> Inr (ESP_OK, w'))
          else if opcode = WS_OPCODE_PONG then Inr (ESP_OK, w)
          else if opcode = WS_OPCODE_CLOSE then
            (case websocket_client_disconnect w (process_close env) of
               Inl f \<Rightarrow> Inl f
             | Inr (ret, w') \<Rightarrow> Inr (ESP_OK, w'))
          else Inr (ESP_OK, w))"

definition esp_timer_start_once :: "int \<Rightarrow> esp_timer option \<Rightarrow> esp_timer option" where
  "esp_timer_start_once us t = (case t of None \<Rightarrow> None | Some _ \<Rightarrow> Some (Once us))"

text \<open>
  The reconnect interval is an \<open>int\<close> of 32 bits and the product with 1000 is formed in that
  type before it is widened to the timer's 64-bit period: a product above \<open>INT_MAX\<close> is a
  signed overflow.
\<close>

definition INT_MAX :: int where "INT_MAX = 2147483647"

definition int_mul :: "int \<Rightarrow> int \<Rightarrow> fault + int" where
  "int_mul a b = (if a * b < - INT_MAX - 1 \<or> INT_MAX < a * b then Inl Signed_Overflow else Inr (a * b))"

definition websocket_client_process ::
  "ws_world \<Rightarrow> process_env \<Rightarrow> fault + (esp_err_t \<times> ws_world)" where
  "websocket_client_process w env =
     (let c = ws_client w in
      if \<not> ws_initialized c \<or> state c \<noteq> WS_STATE_CONNECTED then Inr (ESP_OK, w)
      else if \<not> modem_tcp_is_connected (modem w) then
        (let c1 = c\<lparr>state := WS_STATE_DISCONNECTED\<rparr> in
         if reconnect_timer c1 \<noteq> None \<and> 0 < reconnect_interval_ms (config c1) then
           (case int_mul (reconnect_interval_ms (config c1)) 1000 of
              Inl f \<Rightarrow> Inl f
            | Inr us \<Rightarrow>
                Inr (ESP_FAIL,
                     w\<lparr>ws_client :=
                         c1\<lparr>reconnect_timer := esp_timer_start_once us (reconnect_timer c1)\<rparr>\<rparr>))
         else Inr (ESP_FAIL, w\<lparr>ws_client := c1\<rparr>))
      else
        (let r = modem_tcp_receive (modem w) True 1023 True (process_recv env) in
         case received_length r of
           None \<Rightarrow> Inr (ESP_OK, w)
         | Some received_len \<Rightarrow>
             if recv_err r = ESP_OK \<and> 0 < received_len then
               (let rx_buffer = map of_char (received r) @ [0] @
                                  drop (received_len + 1) (rx_before env)
                in if 2 \<le> received_len then dispatch_frame w rx_buffer received_len env
                   else Inr (ESP_OK, w))
             else Inr (ESP_OK, w)))"

section \<open>The specification's wording, where a property is measured against it\<close>

text \<open>
  The specification asks for an HTTP "101" status token in the status line, an Upgrade
  header naming "websocket" and a Connection header naming "Upgrade", both matched without
  regard to case, and a Sec-WebSocket-Accept header. A response is read as HTTP has it: the
  status line, then the header lines up to the first empty line, each line ended by CRLF;
  the status token is the second field of the status line; a header line is a name, a
  colon and a value, and it names a word when the value contains it, case ignored.
\<close>

definition ascii_lower :: "char \<Rightarrow> char" where
  "ascii_lower c = (if is_upper_c c then char_of ((of_char c :: nat) + 32) else c)"

fun split_crlf :: "string \<Rightarrow> string \<Rightarrow> string list" where
  "split_crlf cur [] = [rev cur]"
| "split_crlf cur [c] = [rev (c # cur)]"
| "split_crlf cur (c # d # rest) =
     (if [c, d] = CRLF then rev cur # split_crlf [] rest else split_crlf (c # cur) (d # rest))"

fun split_fields :: "string \<Rightarrow> string \<Rightarrow> string list" where
  "split_fields cur [] = [rev cur]"
| "split_fields cur (c # rest) =
     (if c = CHR '' '' then rev cur # split_fields [] rest else split_fields (c # cur) rest)"

definition status_line :: "string \<Rightarrow> string" where
  "status_line response = hd (split_crlf [] response)"

definition header_lines :: "string \<Rightarrow> string list" where
  "header_lines response = takeWhile (\<lambda>l. l \<noteq> []) (tl (split_crlf [] response))"

definition status_token :: "string \<Rightarrow> string option" where
  "status_token line = (case split_fields [] line of version # code # rest \<Rightarrow> Some code | _ \<Rightarrow> None)"

definition header_name :: "string \<Rightarrow> string" where
  "header_name line = map ascii_lower (takeWhile (\<lambda>c. c \<noteq> CHR '':'') line)"

definition header_value :: "string \<Rightarrow> string" where
  "header_value line = map ascii_lower (drop 1 (dropWhile (\<lambda>c. c \<noteq> CHR '':'') line))"

definition header_naming :: "string list \<Rightarrow> string \<Rightarrow> string \<Rightarrow> bool" where
  "header_naming headers name word =
     list_ex (\<lambda>l. CHR '':'' \<in> set l \<and> header_name l = name \<and> found (strstr (header_value l) word))
       headers"

definition spec_handshake_valid :: "string \<Rightarrow> bool" where
  "spec_handshake_valid response =
     (status_token (status_line response) = Some ''101'' \<and>
      header_naming (header_lines response) ''upgrade'' ''websocket'' \<and>
      header_naming (header_lines response) ''connection'' ''upgrade'' \<and>
      header_naming (header_lines response) ''sec-websocket-accept'' [])"

text \<open>
  The specification's frame round trip decodes "while ignoring the mask (as the peer would
  after unmasking)": the peer reads the length field of the masked frame, takes the four
  key bytes that follow it, clears the mask bit and undoes the XOR on the payload.
\<close>

definition peer_unmask :: "byte list \<Rightarrow> byte list" where
  "peer_unmask frame =
     (let len7 = unat (frame ! 1 AND 0x7F);
          ext = (if len7 = 126 then 2 else if len7 = 127 then 8 else 0);
          key = take 4 (drop (2 + ext) frame);
          body = drop (2 + ext + 4) frame
      in [frame ! 0, frame ! 1 AND 0x7F] @ take ext (drop 2 frame) @ mask_payload key body)"

section \<open>Concrete configurations used to exercise the model\<close>

definition modem_up :: modem_state where
  "modem_up =
     \<lparr>status = \<lparr>status_initialized = True, at_responsive = True, sim_status = SIM_READY,
                 registration_status = REG_UNKNOWN, signal_quality = 0, pdp_active = False,
                 local_ip = [], operator_name = []\<rparr>,
      event_callback = True, initialized = True, tcp_connected = False,
      tcp_host = [], tcp_port = 0, notified = []\<rparr>"

definition serial_reply :: "string list \<Rightarrow> at_env" where
  "serial_reply chunks = \<lparr>at_mutex_free = True, at_write_ok = True, at_reads = chunks\<rparr>"

definition nginx_style_response :: string where
  "nginx_style_response =
     ''HTTP/1.1 101 Switching Protocols'' @ CRLF @
     ''Upgrade: websocket'' @ CRLF @
     ''Connection: upgrade'' @ CRLF @
     ''Sec-WebSocket-Accept: HSmrc0sMlYUkAGmm5OPpG2HaGWk='' @ CRLF @ CRLF"

definition lowercase_response :: string where
  "lowercase_response =
     ''HTTP/1.1 101 Switching Protocols'' @ CRLF @
     ''upgrade: websocket'' @ CRLF @
     ''connection: upgrade'' @ CRLF @
     ''sec-websocket-accept: HSmrc0sMlYUkAGmm5OPpG2HaGWk='' @ CRLF @ CRLF"

definition bad_request_response :: string where
  "bad_request_response =
     ''HTTP/1.1 400 Bad Request'' @ CRLF @
     ''Content-Type: text/plain'' @ CRLF @ CRLF @
     ''expected 101 Switching Protocols with Upgrade: websocket, '' @
     ''Connection: Upgrade and Sec-WebSocket-Accept: <key>''"

definition rfc_style_response :: string where
  "rfc_style_response =
     ''HTTP/1.1 101 Switching Protocols'' @ CRLF @
     ''Upgrade: websocket'' @ CRLF @
     ''Connection: Upgrade'' @ CRLF @
     ''Sec-WebSocket-Accept: HSmrc0sMlYUkAGmm5OPpG2HaGWk='' @ CRLF @ CRLF"

definition client_config :: websocket_config_t where
  "client_config =
     \<lparr>server_host = ''47.208.219.96'', server_port = 8080, path = ''/'',
      reconnect_interval_ms = 5000, ping_interval_ms = 30000, response_timeout_ms = 10000,
      ws_event_callback = True\<rparr>"

definition client_in :: "websocket_state_t \<Rightarrow> ws_client_t" where
  "client_in s =
     \<lparr>config = client_config, state = s, ping_timer = Some (Periodic 30000000),
      reconnect_timer = Some Stopped, ws_initialized = True, websocket_key = []\<rparr>"

definition creg_roaming_reply :: string where
  "creg_roaming_reply = CRLF @ ''+CREG: 0,5'' @ CRLF @ CRLF @ ''OK'' @ CRLF"

definition cops_error_reply :: string where
  \<open>cops_error_reply = ''+COPS: 0,0,"TOKYO"'' @ CRLF @ ''ERROR''\<close>

definition modem_ready :: modem_state where
  "modem_ready =
     modem_up\<lparr>status := (status modem_up)\<lparr>registration_status := REG_OK_HOME, pdp_active := True\<rparr>\<rparr>"

definition modem_connected :: modem_state where
  "modem_connected = store_connection ''47.208.219.96'' 8080 modem_ready"

definition binding_status_reply :: string where
  \<open>binding_status_reply =
     CRLF @ ''+CIPOPEN: 0,"TCP","47.208.219.96",8080,-1'' @ CRLF @ CRLF @ ''OK'' @ CRLF\<close>

text \<open>A send of 40 bytes that the modem confirms with a sent count of 12.\<close>

definition partial_confirm_reply :: string where
  "partial_confirm_reply = CRLF @ ''+CIPSEND: 0,12'' @ CRLF @ CRLF @ ''OK'' @ CRLF"

definition partial_send_attempt :: send_attempt where
  "partial_send_attempt =
     \<lparr>status_read = binding_status_reply, cmd_write_ok = True, prompt_reads = [CRLF @ ''>''],
      data_written = 40,
      confirm_reads = [partial_confirm_reply]\<rparr>"

definition partial_send_env :: send_env where
  "partial_send_env = \<lparr>send_mutex_free = True, attempt = (\<lambda>n. partial_send_attempt)\<rparr>"

text \<open>Connects whose status query reports a binding other than the requested one.\<close>

definition fleet_host_a :: string where
  "fleet_host_a = ''telemetry-ingest.eu-central-1.fleet-gateway.production-a.example.net''"

definition fleet_host_b :: string where
  "fleet_host_b = ''telemetry-ingest.eu-central-1.fleet-gateway.production-b.example.net''"

definition status_reply :: "string \<Rightarrow> string \<Rightarrow> string" where
  \<open>status_reply host port =
     CRLF @ ''+CIPOPEN: 0,"TCP","'' @ host @ ''",'' @ port @ '',-1'' @ CRLF @ CRLF @ ''OK'' @ CRLF\<close>

definition connect_replies :: "string \<Rightarrow> connect_env" where
  "connect_replies status_text =
     \<lparr>netopen_env = serial_reply [CRLF @ ''OK'' @ CRLF @ CRLF @ ''+NETOPEN: 0'' @ CRLF],
      cipclose_env = serial_reply [CRLF @ ''+CIPCLOSE: 0,4'' @ CRLF @ CRLF @ ''ERROR'' @ CRLF],
      cipopen_env = serial_reply [CRLF @ ''OK'' @ CRLF],
      status_env = serial_reply [status_text]\<rparr>"

text \<open>Receive attempts: the channel held by a sender, a silent channel, and an inbound
  marker followed six bytes later by an HTTP status line.\<close>

definition ipd_http_chunk :: string where
  "ipd_http_chunk = CRLF @ ''+IPD1024'' @ CRLF @ ''HTTP/1.1 200 OK'' @ CRLF"

definition channel_busy :: recv_env where
  "channel_busy = \<lparr>recv_mutex_free = False, recv_reads = [ipd_http_chunk]\<rparr>"

definition channel_silent :: recv_env where
  "channel_silent = \<lparr>recv_mutex_free = True, recv_reads = [[], []]\<rparr>"

definition channel_ipd :: recv_env where
  "channel_ipd = \<lparr>recv_mutex_free = True, recv_reads = [[], ipd_http_chunk]\<rparr>"

definition world_in :: "websocket_state_t \<Rightarrow> ws_world" where
  "world_in s =
     \<lparr>ws_client = client_in s, modem = modem_connected, delivered = [], tcp_out = []\<rparr>"

text \<open>A send that the modem prompts for and confirms with "SEND OK".\<close>

definition good_send_attempt :: "int \<Rightarrow> send_attempt" where
  "good_send_attempt n =
     \<lparr>status_read = binding_status_reply, cmd_write_ok = True, prompt_reads = [CRLF @ ''>''],
      data_written = n,
      confirm_reads = [CRLF @ ''SEND OK'' @ CRLF]\<rparr>"

definition good_send_env :: "int \<Rightarrow> send_env" where
  "good_send_env n = \<lparr>send_mutex_free = True, attempt = (\<lambda>k. good_send_attempt n)\<rparr>"

definition close_env :: disconnect_env where
  "close_env =
     \<lparr>close_mask = 0x1A2B3C4D, close_send = good_send_env 6,
      close_at = serial_reply [CRLF @ ''OK'' @ CRLF]\<rparr>"

text \<open>A disconnect during which the modem confirms the Close frame with a bare "OK".\<close>

definition short_confirm_attempt :: send_attempt where
  "short_confirm_attempt =
     \<lparr>status_read = binding_status_reply, cmd_write_ok = True, prompt_reads = [CRLF @ ''>''],
      data_written = 6,
      confirm_reads = [CRLF @ ''OK'' @ CRLF]\<rparr>"

definition short_confirm_env :: disconnect_env where
  "short_confirm_env =
     \<lparr>close_mask = 0x1A2B3C4D,
      close_send = \<lparr>send_mutex_free = True, attempt = (\<lambda>k. short_confirm_attempt)\<rparr>,
      close_at = serial_reply [CRLF @ ''OK'' @ CRLF]\<rparr>"

text \<open>Messages for the send-text operation: the greeting of main.c and one of 1025
  characters.\<close>

definition greeting :: "byte list" where
  "greeting = map of_char ''ESP32 with SIM7670G connected!'' @ [0]"

definition oversized_message :: "byte list" where
  "oversized_message = replicate 1025 0x41 @ [0]"

section \<open>Properties of the C library model\<close>

lemma strstr_sublist: "found (strstr hay needle) \<longleftrightarrow> sublist needle hay"
  by (induction hay) (auto simp: found_def sublist_Cons_right)

lemma strstr_Some_sublist: "strstr hay needle = Some i \<Longrightarrow> sublist needle hay"
  using strstr_sublist[of hay needle] by (simp add: found_def)

lemma strstr_bound: "strstr hay needle = Some i \<Longrightarrow> i + length needle \<le> length hay"
proof (induction hay arbitrary: i)
  case Nil
  then show ?case by (simp split: if_splits)
next
  case (Cons c cs)
  show ?case
  proof (cases "prefix needle (c # cs)")
    case True
    with Cons.prems have "i = 0" by simp
    with True show ?thesis by (auto dest: prefix_length_le)
  next
    case False
    with Cons.prems obtain k where "strstr cs needle = Some k" "i = Suc k" by auto
    with Cons.IH[of k] show ?thesis by simp
  qed
qed

lemma sublist_cstr: "sublist pat (cstr buf) \<Longrightarrow> sublist pat buf"
  unfolding cstr_def by (meson sublist_order.order_trans sublist_takeWhile)

text \<open>Decimal rendering of a literal number, digit by digit.\<close>

lemma dec_nat_numeral:
  "dec_nat (numeral k) =
     (if numeral k < (10::nat) then [digit_char (numeral k)]
      else dec_nat (numeral k div 10) @ [digit_char (numeral k mod 10)])"
  by (rule dec_nat.simps)

section \<open>Command engine\<close>

lemma at_read_loop_length:
  "length buf \<le> AT_RESPONSE_BUFFER_SIZE - 1 \<Longrightarrow>
   length (at_read_loop chunks buf) \<le> AT_RESPONSE_BUFFER_SIZE - 1"
  by (induction chunks arbitrary: buf) (auto simp: Let_def AT_RESPONSE_BUFFER_SIZE_def)

lemma send_at_command_reply:
  assumes "send_at_command ms command response env = Inr r"
  shows "at_result r \<longleftrightarrow> 0 < total_read r \<and> sublist ''OK'' (at_text r)"
    and "0 < total_read r \<Longrightarrow> response \<noteq> None \<Longrightarrow> at_copied r = Some (at_text r)"
  using assms
  by (auto simp: send_at_command_def at_not_run_def total_read_def at_text_def Let_def
        strstr_sublist cstr_def split: if_splits option.splits)

lemma send_at_command_copied:
  assumes "send_at_command ms command (Some cap) env = Inr r" and "at_result r"
  shows "response_after before r = at_text r"
  using assms
  by (auto simp: send_at_command_def at_not_run_def response_after_def at_text_def Let_def
        split: if_splits)

text \<open>The transaction has a defined outcome whenever the caller's buffer can hold the
  whole response buffer (or no copy is requested).\<close>

lemma send_at_command_returns:
  assumes "response = None \<or> (\<exists>cap. response = Some cap \<and> AT_RESPONSE_BUFFER_SIZE \<le> cap)"
  shows "\<exists>r. send_at_command ms command response env = Inr r"
proof -
  have "length (cstr (at_read_loop (at_reads env) [])) \<le> AT_RESPONSE_BUFFER_SIZE - 1"
    using at_read_loop_length[of "[]" "at_reads env"] length_takeWhile_le[of _ "at_read_loop (at_reads env) []"]
    by (simp add: cstr_def AT_RESPONSE_BUFFER_SIZE_def) (meson le_trans length_takeWhile_le)
  then show ?thesis
    using assms
    by (auto simp: send_at_command_def Let_def AT_RESPONSE_BUFFER_SIZE_def split: option.splits)
qed

text \<open>
  Claim C7, as stated, fails in its last part: a response that ends in "ERROR" is
  reported as a success when the text "OK" occurs anywhere in it, here inside an operator
  name.
\<close>

theorem send_at_command_error_suffix_counterexample:
  "send_at_command modem_up (Some ''AT+COPS?'') None (serial_reply [cops_error_reply])
     = Inr \<lparr>at_result = True, at_buffer = cops_error_reply, at_copied = None\<rparr> \<and>
   suffix ''ERROR'' cops_error_reply"
  by code_simp

text \<open>
  Claim C7, amended: whenever the transaction returns, the flag is true exactly if at
  least one byte was read and the accumulated text contains "OK"; an accumulated text
  ending in "OK" gives success and is the text handed back to a caller that asked for
  it; an accumulated text ending in "ERROR" or "FAIL" gives failure provided "OK" does
  not occur in it.
\<close>

theorem send_at_command_success:
  assumes "send_at_command ms command response env = Inr r"
  shows "(at_result r \<longleftrightarrow> 0 < total_read r \<and> sublist ''OK'' (at_text r)) \<and>
         (suffix ''OK'' (at_text r) \<longrightarrow>
            at_result r \<and> (response \<noteq> None \<longrightarrow> at_copied r = Some (at_text r))) \<and>
         ((suffix ''ERROR'' (at_text r) \<or> suffix ''FAIL'' (at_text r)) \<and>
            \<not> sublist ''OK'' (at_text r) \<longrightarrow> \<not> at_result r)"
proof -
  have iff: "at_result r \<longleftrightarrow> 0 < total_read r \<and> sublist ''OK'' (at_text r)"
    using assms by (rule send_at_command_reply)
  have nonempty: "0 < total_read r" if "suffix ''OK'' (at_text r)"
  proof -
    from that have "at_text r \<noteq> []" by (auto simp: suffix_def)
    then show ?thesis by (auto simp: at_text_def total_read_def cstr_def)
  qed
  have contained: "sublist ''OK'' (at_text r)" if "suffix ''OK'' (at_text r)"
    using that by (rule suffix_imp_sublist)
  show ?thesis
    using iff nonempty contained send_at_command_reply(2)[OF assms] by auto
qed

theorem send_at_command_success_witness:
  "send_at_command modem_up (Some ''AT'') (Some 256) (serial_reply [CRLF @ ''OK''])
     = Inr \<lparr>at_result = True, at_buffer = CRLF @ ''OK'', at_copied = Some (CRLF @ ''OK'')\<rparr> \<and>
   suffix ''OK'' (CRLF @ ''OK'') \<and>
   at_result \<lparr>at_result = True, at_buffer = CRLF @ ''OK'', at_copied = Some (CRLF @ ''OK'')\<rparr>"
proof -
  let ?r = "\<lparr>at_result = True, at_buffer = CRLF @ ''OK'', at_copied = Some (CRLF @ ''OK'')\<rparr>"
  have run: "send_at_command modem_up (Some ''AT'') (Some 256) (serial_reply [CRLF @ ''OK'']) = Inr ?r"
    by code_simp
  have "suffix ''OK'' (CRLF @ ''OK'')"
    by (simp add: suffix_def)
  with send_at_command_success[OF run] run show ?thesis
    by simp
qed

section \<open>Registration status and readiness\<close>

text \<open>
  Claim C8: when the registration query succeeds and its response holds "+CREG:" followed
  by a comma, the integer after that comma is mapped 0 to NotRegistered, 1 to Home, 2 to
  Searching, 3 to Denied, 5 to Roaming and anything else to Unknown, and the result is
  stored in the status; the readiness predicate is true exactly if the modem is
  initialized, responsive, its SIM ready, its registration Home or Roaming and its data
  context active; so after a response with code 5 the registration is Roaming and the
  modem is not ready as long as the data context is inactive.
\<close>

theorem registration_status_mapping:
  assumes run: "send_at_command ms (Some ''AT+CREG?'') (Some 256) env = Inr r"
    and ok: "at_result r"
    and creg: "strstr (at_text r) ''+CREG:'' = Some i"
    and comma: "strchr (drop i (at_text r)) CHR '','' = Some j"
    and code: "code = atoi (drop (i + j + 1) (at_text r))"
    and st: "st = (if code = 0 then REG_NOT_REGISTERED
                   else if code = 1 then REG_OK_HOME
                   else if code = 2 then REG_SEARCHING
                   else if code = 3 then REG_DENIED
                   else if code = 5 then REG_OK_ROAMING
                   else REG_UNKNOWN)"
  shows "\<exists>ms'. sim7670g_get_registration_status ms uninit env = Inr (st, ms') \<and>
           registration_status (status ms') = st \<and>
           pdp_active (status ms') = pdp_active (status ms) \<and>
           (sim7670g_is_ready ms' \<longleftrightarrow>
              initialized ms' \<and> at_responsive (status ms') \<and>
              sim_status (status ms') = SIM_READY \<and>
              (registration_status (status ms') = REG_OK_HOME \<or>
               registration_status (status ms') = REG_OK_ROAMING) \<and>
              pdp_active (status ms')) \<and>
           (code = 5 \<longrightarrow> st = REG_OK_ROAMING \<and>
              (\<not> pdp_active (status ms) \<longrightarrow> \<not> sim7670g_is_ready ms'))"
proof -
  have resp: "response_after uninit r = at_text r"
    using run ok by (rule send_at_command_copied)
  have st': "st = reg_status_of_code code"
    using st by (simp add: reg_status_of_code_def)
  define ms' where "ms' = (if st = REG_OK_HOME \<or> st = REG_OK_ROAMING
                            then notify_event SIM7670G_EVENT_NETWORK_REGISTERED (set_registration st ms)
                            else set_registration st ms)"
  have res: "sim7670g_get_registration_status ms uninit env = Inr (st, ms')"
    using run ok creg comma code st'
    by (simp add: sim7670g_get_registration_status_def resp Let_def ms'_def)
  have f: "registration_status (status ms') = st" "pdp_active (status ms') = pdp_active (status ms)"
    by (auto simp: ms'_def notify_event_def set_registration_def)
  have rdy: "sim7670g_is_ready ms' \<longleftrightarrow>
              initialized ms' \<and> at_responsive (status ms') \<and>
              sim_status (status ms') = SIM_READY \<and>
              (registration_status (status ms') = REG_OK_HOME \<or>
               registration_status (status ms') = REG_OK_ROAMING) \<and>
              pdp_active (status ms')"
    by (simp add: sim7670g_is_ready_def)
  have roam: "code = 5 \<longrightarrow> st = REG_OK_ROAMING \<and>
              (\<not> pdp_active (status ms) \<longrightarrow> \<not> sim7670g_is_ready ms')"
    using st f by (auto simp: sim7670g_is_ready_def)
  from res f rdy roam show ?thesis by blast
qed

text \<open>
  The scenario with status code 5: the registration becomes Roaming, the modem is not
  ready, and it is ready once the data context has been activated.
\<close>

theorem registration_status_mapping_witness:
  "map_sum id
     (\<lambda>(st, ms'). (st, sim7670g_is_ready ms',
        map_sum id (\<lambda>(ok, ms''). (ok, sim7670g_is_ready ms''))
          (sim7670g_activate_pdp_context ms' (serial_reply [CRLF @ ''OK'' @ CRLF]))))
     (sim7670g_get_registration_status modem_up [] (serial_reply [creg_roaming_reply]))
   = Inr (REG_OK_ROAMING, False, Inr (True, True))"
proof -
  let ?r = "\<lparr>at_result = True, at_buffer = creg_roaming_reply, at_copied = Some creg_roaming_reply\<rparr>"
  have run: "send_at_command modem_up (Some ''AT+CREG?'') (Some 256) (serial_reply [creg_roaming_reply]) = Inr ?r"
    by code_simp
  have ok: "at_result ?r" by simp
  have creg: "strstr (at_text ?r) ''+CREG:'' = Some 2" by code_simp
  have comma: "strchr (drop 2 (at_text ?r)) CHR '','' = Some 8" by code_simp
  have code: "(5::int) = atoi (drop (2 + 8 + 1) (at_text ?r))" by code_simp
  have idle: "\<not> pdp_active (status modem_up)" by (simp add: modem_up_def)
  from registration_status_mapping[OF run ok creg comma code refl, of "[]"] idle
  obtain ms' where
    res: "sim7670g_get_registration_status modem_up [] (serial_reply [creg_roaming_reply])
            = Inr (REG_OK_ROAMING, ms')"
    and "\<not> sim7670g_is_ready ms'"
    by auto
  have later: "map_sum id (\<lambda>(st, ms'). map_sum id (\<lambda>(ok, ms''). (ok, sim7670g_is_ready ms''))
          (sim7670g_activate_pdp_context ms' (serial_reply [CRLF @ ''OK'' @ CRLF])))
     (sim7670g_get_registration_status modem_up [] (serial_reply [creg_roaming_reply]))
   = Inr (Inr (True, True))"
    by code_simp
  with res \<open>\<not> sim7670g_is_ready ms'\<close> show ?thesis by simp
qed

section \<open>Handshake\<close>

text \<open>
  The code's test in terms of the literals it searches for: the full text
  "101 Switching Protocols" and, for each header, the capitalised and the all-lowercase
  spelling. Every rejection is the generic failure code.
\<close>

lemma websocket_parse_response_literals:
  "websocket_parse_response response = ESP_OK \<longleftrightarrow>
     sublist ''101 Switching Protocols'' response \<and>
     (sublist ''Upgrade: websocket'' response \<or> sublist ''upgrade: websocket'' response) \<and>
     (sublist ''Connection: Upgrade'' response \<or> sublist ''connection: upgrade'' response) \<and>
     (sublist ''Sec-WebSocket-Accept:'' response \<or> sublist ''sec-websocket-accept:'' response)"
  by (simp add: websocket_parse_response_def strstr_sublist)

lemma websocket_parse_response_codes:
  "websocket_parse_response response = ESP_OK \<or> websocket_parse_response response = ESP_FAIL"
  by (simp add: websocket_parse_response_def)

text \<open>
  The tests read the response as one text, so the literals count wherever they occur: a
  400 response whose body quotes them has neither the status token nor the headers and
  is accepted.
\<close>

lemma websocket_parse_response_body_text:
  "\<not> spec_handshake_valid bad_request_response \<and>
   status_token (status_line bad_request_response) = Some ''400'' \<and>
   websocket_parse_response bad_request_response = ESP_OK"
  by code_simp

text \<open>
  Claim C4 does not hold of the code. Three responses that differ only in the case of
  letters in their header lines all have the "101" status token, an Upgrade header naming
  websocket, a Connection header naming Upgrade and a Sec-WebSocket-Accept header. The
  code accepts the one with the capitalised spellings and the one with the all-lowercase
  spellings, and rejects the one whose Connection header reads "Connection: upgrade",
  although that header is present: the pair of spellings tried for each header does not
  amount to the match without regard to case that the claim states.
\<close>

theorem websocket_parse_response_rejects_mixed_case:
  "spec_handshake_valid nginx_style_response \<and>
   found (strstr nginx_style_response ''Connection: upgrade'') \<and>
   websocket_parse_response nginx_style_response = ESP_FAIL \<and>
   spec_handshake_valid rfc_style_response \<and>
   websocket_parse_response rfc_style_response = ESP_OK \<and>
   spec_handshake_valid lowercase_response \<and>
   websocket_parse_response lowercase_response = ESP_OK"
  by code_simp

theorem websocket_parse_response_rejects_mixed_case_witness:
  "websocket_parse_response nginx_style_response \<noteq> websocket_parse_response lowercase_response"
  using websocket_parse_response_rejects_mixed_case by simp

text \<open>
  Claim C9 does not hold of the code: the key is the same literal in every handshake,
  whatever the client's state, so the keys of any two attempts coincide. The source
  comments call for an actual random key at this place.
\<close>

theorem websocket_generate_key_constant:
  "websocket_key (websocket_generate_key c1) = ''x3JJHMbDL1EzLkh9GBhXDw=='' \<and>
   websocket_key (websocket_generate_key c2) = websocket_key (websocket_generate_key c1) \<and>
   handshake_request (websocket_generate_key (client_in WS_STATE_CONNECTING)) =
     ''GET / HTTP/1.1'' @ CRLF @
     ''Host: 47.208.219.96:8080'' @ CRLF @
     ''Upgrade: websocket'' @ CRLF @
     ''Connection: Upgrade'' @ CRLF @
     ''Sec-WebSocket-Key: x3JJHMbDL1EzLkh9GBhXDw=='' @ CRLF @
     ''Sec-WebSocket-Version: 13'' @ CRLF @ CRLF"
  by (simp add: handshake_request_def websocket_generate_key_def client_in_def
        client_config_def snprintf_def dec_int_def dec_nat_numeral digit_char_def CRLF_def)

section \<open>Socket layer: connect\<close>

lemma dec_int_80: "dec_int 80 = ''80''"
  by (simp add: dec_int_def dec_nat_numeral digit_char_def)

text \<open>A successful connect rests on a status reply that holds the expected text, which
  is the requested binding cut to the 63 characters the local buffer takes.\<close>

lemma tcp_connect_ok_binding:
  assumes "sim7670g_tcp_connect ms (Some host) port uninit env = Inr (ESP_OK, ms')"
  shows "\<exists>r. send_at_command ms (Some ''AT+CIPOPEN?'') (Some 256) (status_env env) = Inr r \<and>
             at_result r \<and> sublist (expected_binding host port) (at_text r) \<and>
             ms' = store_connection host port ms"
proof -
  from assms obtain r4 before where
    run: "send_at_command ms (Some ''AT+CIPOPEN?'') (Some 256) (status_env env) = Inr r4"
    and ok: "at_result r4"
    and hit: "found (strstr (response_after before r4) (expected_binding host port))"
    and st: "ms' = store_connection host port ms"
    by (auto simp: sim7670g_tcp_connect_def Let_def split: if_splits sum.splits)
  from send_at_command_copied[OF run ok, of before] hit
  have "sublist (expected_binding host port) (at_text r4)"
    by (simp add: strstr_sublist)
  with run ok st show ?thesis by blast
qed

lemma tcp_connect_failure_keeps_state:
  assumes "sim7670g_tcp_connect ms host port uninit env = Inr (err, ms')" and "err \<noteq> ESP_OK"
  shows "ms' = ms"
  using assms
  by (auto simp: sim7670g_tcp_connect_def Let_def split: if_splits sum.splits option.splits)

text \<open>
  Claim C5 does not hold of the code. Asked for port 80, the connect accepts a status
  reply that reports the socket bound to port 8080 of the same host, because the expected
  text is searched as a substring and "...,80" begins "...,8080". Asked for a host of 68
  characters, it accepts a status reply that reports another host with the same first 54
  characters, because the expected text is cut to 63 characters; that reply does not
  contain the requested binding. In both runs the socket is marked connected.
\<close>

theorem tcp_connect_binding_mismatch_accepted:
  \<open>sim7670g_tcp_connect modem_ready (Some ''47.208.219.96'') 80 []
      (connect_replies (status_reply ''47.208.219.96'' ''8080''))
     = Inr (ESP_OK, store_connection ''47.208.219.96'' 80 modem_ready) \<and>
   sim7670g_tcp_connect modem_ready (Some fleet_host_a) 80 []
      (connect_replies (status_reply fleet_host_b ''80''))
     = Inr (ESP_OK, store_connection fleet_host_a 80 modem_ready) \<and>
   strstr (status_reply fleet_host_b ''80'') (''0,"TCP","'' @ fleet_host_a @ ''",80'') = None \<and>
   tcp_connected (store_connection fleet_host_a 80 modem_ready)\<close>
proof -
  have port: "sim7670g_tcp_connect modem_ready (Some ''47.208.219.96'') 80 []
      (connect_replies (status_reply ''47.208.219.96'' ''8080''))
     = Inr (ESP_OK, store_connection ''47.208.219.96'' 80 modem_ready)"
    unfolding sim7670g_tcp_connect_def cipopen_command_def expected_binding_def dec_int_80
    by code_simp
  have host: "sim7670g_tcp_connect modem_ready (Some fleet_host_a) 80 []
      (connect_replies (status_reply fleet_host_b ''80''))
     = Inr (ESP_OK, store_connection fleet_host_a 80 modem_ready)"
    unfolding sim7670g_tcp_connect_def cipopen_command_def expected_binding_def dec_int_80
    by code_simp
  have absent: \<open>strstr (status_reply fleet_host_b ''80'') (''0,"TCP","'' @ fleet_host_a @ ''",80'') = None\<close>
    by code_simp
  have "tcp_connected (store_connection fleet_host_a 80 modem_ready)"
    by (simp add: store_connection_def)
  with port host absent show ?thesis by simp
qed

theorem tcp_connect_binding_mismatch_accepted_witness:
  "map_sum id fst (sim7670g_tcp_connect modem_ready (Some ''47.208.219.96'') 80 []
      (connect_replies (status_reply ''47.208.219.96'' ''8080''))) = Inr ESP_OK"
  using tcp_connect_binding_mismatch_accepted by simp

section \<open>Socket layer: send\<close>

lemma cipsend_40: "cipsend_command 40 = ''AT+CIPSEND=0,40''"
  by (simp add: cipsend_command_def snprintf_def dec_nat_numeral digit_char_def)

lemma modem_connected_open: "tcp_connected modem_connected"
  by (simp add: modem_connected_def store_connection_def)

text \<open>
  Claim C1 does not hold of the code. A payload of 40 bytes is sent, the modem confirms
  with "+CIPSEND: 0,12", and both versions of the send return success: the one in
  sim7670g\_modem.c stops at the marker "+CIPSEND:" and never reads the count; the one
  in sim7670g\_tcp\_send.c reads the count, finds it different from the length, and
  leaves the success flag as the presence of the marker had set it.
\<close>

theorem tcp_send_partial_count_accepted:
  "sim7670g_tcp_send modem_connected (Some (replicate 40 0x41)) 40 partial_send_env = Inr ESP_OK \<and>
   sim7670g_tcp_send_v2 modem_connected (Some (replicate 40 0x41)) 40 partial_send_env = Inr ESP_OK \<and>
   map_option (\<lambda>p. atoi (drop (p + 12) partial_confirm_reply))
     (strstr partial_confirm_reply ''+CIPSEND: 0,'') = Some 12"
proof -
  have once: "send_attempt_once True 40 partial_send_attempt = Inr Sent"
    unfolding send_attempt_once_def cipsend_40 by code_simp
  have loop: "send_retry_loop True 40 (\<lambda>n. partial_send_attempt) 0 = Inr True"
    by (subst send_retry_loop.simps) (simp add: once)
  have bin: "has_binary_scan (replicate 40 0x41) 40 = Inr False"
    by code_simp
  have v1: "sim7670g_tcp_send modem_connected (Some (replicate 40 0x41)) 40 partial_send_env
              = Inr ESP_OK"
    by (simp add: sim7670g_tcp_send_def bin modem_connected_open loop partial_send_env_def)
  have p: "prompt_loop_v2 (prompt_reads partial_send_attempt)"
    by code_simp
  have t: "cstr (confirm_loop_v2 (confirm_reads partial_send_attempt) []) = partial_confirm_reply"
    by code_simp
  have v: "send_verdict_v2 partial_confirm_reply 40"
    by code_simp
  have w: "cmd_write_ok partial_send_attempt" "data_written partial_send_attempt = 40"
    by (simp_all add: partial_send_attempt_def)
  have v2: "sim7670g_tcp_send_v2 modem_connected (Some (replicate 40 0x41)) 40 partial_send_env
              = Inr ESP_OK"
    by (simp add: sim7670g_tcp_send_v2_def modem_connected_open p t v w partial_send_env_def Let_def)
  have count: "map_option (\<lambda>p. atoi (drop (p + 12) partial_confirm_reply))
                 (strstr partial_confirm_reply ''+CIPSEND: 0,'') = Some 12"
    by code_simp
  from v1 v2 count show ?thesis by simp
qed

theorem tcp_send_partial_count_accepted_witness:
  "sim7670g_tcp_send modem_connected (Some (replicate 40 0x41)) 40 partial_send_env \<noteq> Inr ESP_FAIL"
  using tcp_send_partial_count_accepted by simp

section \<open>Socket layer: receive\<close>

lemma find_payload_marker:
  assumes "find_payload text = Some off"
  shows "sublist ''RECV FROM:'' text \<or> sublist ''+IPD'' text"
  using assms
  by (auto simp: find_payload_def dest: strstr_Some_sublist split: option.splits)

lemma find_payload_bound:
  assumes "find_payload text = Some off"
  shows "off < length text"
proof -
  have "recv_start + h < length text"
    if "strstr (drop recv_start text) ''HTTP/'' = Some h" for recv_start h
    using strstr_bound[OF that] by simp
  then show ?thesis
    using assms
    by (auto simp: find_payload_def Let_def split: option.splits if_splits)
qed

lemma recv_loop_full:
  "AT_RESPONSE_BUFFER_SIZE - 1 \<le> length buf \<Longrightarrow> recv_loop bs reads buf = (None, length buf)"
  by (cases reads) auto

text \<open>One turn of the receive loop while the buffer has room, with the bytes taken from
  the chunk named.\<close>

lemma recv_loop_step:
  assumes "length buf < AT_RESPONSE_BUFFER_SIZE - 1"
    and "got = take (AT_RESPONSE_BUFFER_SIZE - length buf - 1) chunk"
  shows "recv_loop bs (chunk # later) buf =
           (if got = [] then recv_loop bs later buf
            else case find_payload (cstr (buf @ got)) of
                   None \<Rightarrow> recv_loop bs later (buf @ got)
                 | Some http_start \<Rightarrow>
                     (Some (take (if length (buf @ got) - http_start < bs - 1
                                  then length (buf @ got) - http_start else bs - 1)
                              (drop http_start (buf @ got))),
                      length (buf @ got)))"
  using assms(1) unfolding assms(2) by (simp add: Let_def split: option.splits)

lemma got_cases:
  assumes "length buf < AT_RESPONSE_BUFFER_SIZE - 1"
    and "got = take (AT_RESPONSE_BUFFER_SIZE - length buf - 1) chunk"
  shows "got = [] \<longleftrightarrow> chunk = []"
    and "got \<noteq> chunk \<Longrightarrow> length (buf @ got) = AT_RESPONSE_BUFFER_SIZE - 1"
    and "prefix (buf @ got) (buf @ chunk @ rest)"
proof -
  show "got = [] \<longleftrightarrow> chunk = []"
    using assms by auto
  show "length (buf @ got) = AT_RESPONSE_BUFFER_SIZE - 1" if "got \<noteq> chunk"
  proof -
    from that assms(2) have "AT_RESPONSE_BUFFER_SIZE - length buf - 1 < length chunk"
      by (metis not_le_imp_less take_all)
    with assms show ?thesis by simp
  qed
  show "prefix (buf @ got) (buf @ chunk @ rest)"
    unfolding assms(2) by (simp add: take_is_prefix prefix_prefix)
qed

lemma recv_loop_count:
  "length buf \<le> snd (recv_loop bs reads buf) \<and>
   (concat reads \<noteq> [] \<longrightarrow> 0 < snd (recv_loop bs reads buf))"
proof (induction reads arbitrary: buf)
  case Nil
  then show ?case by simp
next
  case (Cons chunk later)
  show ?case
  proof (cases "length buf < AT_RESPONSE_BUFFER_SIZE - 1")
    case False
    then have "recv_loop bs (chunk # later) buf = (None, length buf)"
      by (intro recv_loop_full) simp
    moreover from False have "0 < length buf"
      by (auto simp: AT_RESPONSE_BUFFER_SIZE_def)
    ultimately show ?thesis by (simp del: recv_loop.simps)
  next
    case room: True
    define got where "got = take (AT_RESPONSE_BUFFER_SIZE - length buf - 1) chunk"
    note step = recv_loop_step[OF room got_def, of bs later]
    note got = got_cases[OF room got_def]
    show ?thesis
    proof (cases "got = []")
      case True
      with got(1) have "chunk = []" by simp
      with True Cons.IH[of buf] show ?thesis
        unfolding step by simp
    next
      case False
      with Cons.IH[of "buf @ got"] show ?thesis
        unfolding step by (auto split: option.splits)
    qed
  qed
qed

lemma recv_loop_idle:
  "concat reads = [] \<Longrightarrow> recv_loop bs reads buf = (None, length buf)"
  by (induction reads arbitrary: buf) auto

lemma recv_loop_no_marker:
  assumes "\<not> sublist ''RECV FROM:'' (buf @ concat reads)"
    and "\<not> sublist ''+IPD'' (buf @ concat reads)"
  shows "fst (recv_loop bs reads buf) = None"
  using assms
proof (induction reads arbitrary: buf)
  case Nil
  then show ?case by simp
next
  case (Cons chunk later)
  show ?case
  proof (cases "length buf < AT_RESPONSE_BUFFER_SIZE - 1")
    case False
    then have "recv_loop bs (chunk # later) buf = (None, length buf)"
      by (intro recv_loop_full) simp
    then show ?thesis by simp
  next
    case room: True
    define got where "got = take (AT_RESPONSE_BUFFER_SIZE - length buf - 1) chunk"
    note step = recv_loop_step[OF room got_def, of bs later]
    note got = got_cases[OF room got_def]
    have nomark: "find_payload (cstr (buf @ got)) = None"
    proof (rule ccontr)
      assume "find_payload (cstr (buf @ got)) \<noteq> None"
      then obtain off where "find_payload (cstr (buf @ got)) = Some off" by auto
      from find_payload_marker[OF this]
      have "sublist ''RECV FROM:'' (buf @ got) \<or> sublist ''+IPD'' (buf @ got)"
        by (auto dest: sublist_cstr)
      with got(3)[of "concat later"]
      have "sublist ''RECV FROM:'' (buf @ chunk @ concat later) \<or>
            sublist ''+IPD'' (buf @ chunk @ concat later)"
        by (meson prefix_imp_sublist sublist_order.order_trans)
      with Cons.prems show False by simp
    qed
    show ?thesis
    proof (cases "got = chunk")
      case True
      with Cons.IH[of "buf @ chunk"] Cons.IH[of buf] Cons.prems nomark show ?thesis
        unfolding step by auto
    next
      case False
      from got(2)[OF False] have "recv_loop bs later (buf @ got) = (None, length (buf @ got))"
        by (intro recv_loop_full) simp
      with nomark False Cons.IH[of buf] Cons.prems got(1) show ?thesis
        unfolding step by auto
    qed
  qed
qed

lemma recv_loop_payload:
  assumes "recv_loop bs reads buf = (Some payload, n)"
  shows "length payload \<le> bs - 1 \<and> 0 < n \<and>
         (sublist ''RECV FROM:'' (buf @ concat reads) \<or> sublist ''+IPD'' (buf @ concat reads))"
  using assms
proof (induction reads arbitrary: buf)
  case Nil
  then show ?case by simp
next
  case (Cons chunk later)
  show ?case
  proof (cases "length buf < AT_RESPONSE_BUFFER_SIZE - 1")
    case False
    then have "recv_loop bs (chunk # later) buf = (None, length buf)"
      by (intro recv_loop_full) simp
    with Cons.prems show ?thesis by simp
  next
    case room: True
    define got where "got = take (AT_RESPONSE_BUFFER_SIZE - length buf - 1) chunk"
    note step = recv_loop_step[OF room got_def, of bs later]
    note got = got_cases[OF room got_def]
    show ?thesis
    proof (cases "got = []")
      case True
      with got(1) have "chunk = []" by simp
      with True Cons.IH[of buf] Cons.prems show ?thesis
        unfolding step by simp
    next
      case nonempty: False
      show ?thesis
      proof (cases "find_payload (cstr (buf @ got))")
        case (Some off)
        from find_payload_marker[OF Some]
        have "sublist ''RECV FROM:'' (buf @ got) \<or> sublist ''+IPD'' (buf @ got)"
          by (auto dest: sublist_cstr)
        with got(3)[of "concat later"]
        have m: "sublist ''RECV FROM:'' (buf @ chunk @ concat later) \<or>
                 sublist ''+IPD'' (buf @ chunk @ concat later)"
          by (meson prefix_imp_sublist sublist_order.order_trans)
        from Cons.prems Some nonempty
        have "length payload \<le> bs - 1" "0 < n"
          unfolding step by (auto split: if_splits)
        with m show ?thesis by simp
      next
        case None
        with Cons.prems nonempty
        have rec: "recv_loop bs later (buf @ got) = (Some payload, n)"
          unfolding step by simp
        have "got = chunk"
        proof (rule ccontr)
          assume "got \<noteq> chunk"
          from got(2)[OF this] have "recv_loop bs later (buf @ got) = (None, length (buf @ got))"
            by (intro recv_loop_full) simp
          with rec show False by simp
        qed
        with Cons.IH[OF rec] show ?thesis by simp
      qed
    qed
  qed
qed

text \<open>
  Claim C3, as stated, fails in its last part: a receive that cannot obtain the channel
  returns the very code of a receive during which no byte arrived.
\<close>

theorem tcp_receive_busy_counterexample:
  "recv_err (sim7670g_tcp_receive modem_connected True 1023 True channel_busy) = ESP_ERR_TIMEOUT \<and>
   recv_err (sim7670g_tcp_receive modem_connected True 1023 True channel_silent) = ESP_ERR_TIMEOUT"
  by code_simp

text \<open>
  Claim C3, amended: a receive on an open socket with a valid buffer ends in one of three
  codes. It is Timeout when the channel could not be obtained (nothing is read then) and,
  with the channel obtained, exactly when no byte arrived; it is NotFound when bytes
  arrived but neither "RECV FROM:" nor "+IPD" is among them; it is Ok only with the
  channel obtained and a marker among the bytes, and then the stored length is the number
  of bytes copied, which is less than the buffer size. Every other outcome stores the
  length 0.
\<close>

theorem tcp_receive_outcomes:
  assumes conn: "tcp_connected ms" and size: "0 < buffer_size"
  shows "let r = sim7670g_tcp_receive ms True buffer_size True env;
             arrived = concat (recv_reads env)
         in (\<not> recv_mutex_free env \<longrightarrow>
               recv_err r = ESP_ERR_TIMEOUT \<and> received_length r = Some 0) \<and>
            (recv_mutex_free env \<longrightarrow>
               (recv_err r = ESP_ERR_TIMEOUT \<longleftrightarrow> arrived = [])) \<and>
            (recv_mutex_free env \<and> arrived \<noteq> [] \<and>
             \<not> sublist ''RECV FROM:'' arrived \<and> \<not> sublist ''+IPD'' arrived \<longrightarrow>
               recv_err r = ESP_ERR_NOT_FOUND) \<and>
            (recv_err r = ESP_OK \<longrightarrow>
               recv_mutex_free env \<and>
               received_length r = Some (length (received r)) \<and>
               length (received r) < buffer_size \<and>
               (sublist ''RECV FROM:'' arrived \<or> sublist ''+IPD'' arrived)) \<and>
            (recv_err r \<noteq> ESP_OK \<longrightarrow>
               (recv_err r = ESP_ERR_TIMEOUT \<or> recv_err r = ESP_ERR_NOT_FOUND) \<and>
               received_length r = Some 0)"
proof (cases "recv_mutex_free env")
  case False
  with conn size show ?thesis
    by (simp add: sim7670g_tcp_receive_def Let_def)
next
  case free: True
  define reads where "reads = recv_reads env"
  obtain p n where loop: "recv_loop buffer_size reads [] = (p, n)"
    by (cases "recv_loop buffer_size reads []")
  from recv_loop_count[of "[]" buffer_size reads] loop
  have n_pos: "concat reads \<noteq> [] \<longrightarrow> 0 < n" by simp
  from recv_loop_idle[of reads buffer_size "[]"] loop
  have idle: "concat reads = [] \<longrightarrow> p = None \<and> n = 0" by simp
  from recv_loop_no_marker[of "[]" reads buffer_size] loop
  have quiet: "\<not> sublist ''RECV FROM:'' (concat reads) \<and> \<not> sublist ''+IPD'' (concat reads)
                 \<longrightarrow> p = None" by simp
  show ?thesis
  proof (cases p)
    case None
    with conn size free loop n_pos idle quiet show ?thesis
      by (auto simp: sim7670g_tcp_receive_def Let_def reads_def)
  next
    case (Some payload)
    from recv_loop_payload[OF loop[unfolded Some]] size
    have "length payload < buffer_size" "0 < n"
      "sublist ''RECV FROM:'' (concat reads) \<or> sublist ''+IPD'' (concat reads)"
      by auto
    with conn size free loop Some idle show ?thesis
      by (auto simp: sim7670g_tcp_receive_def Let_def reads_def)
  qed
qed

theorem tcp_receive_outcomes_witness:
  "recv_err (sim7670g_tcp_receive modem_connected True 1023 True channel_ipd) = ESP_OK \<and>
   received (sim7670g_tcp_receive modem_connected True 1023 True channel_ipd)
     = ''HTTP/1.1 200 OK'' @ CRLF \<and>
   received_length (sim7670g_tcp_receive modem_connected True 1023 True channel_ipd) = Some 17"
proof -
  note conn = modem_connected_open
  have run: "recv_err (sim7670g_tcp_receive modem_connected True 1023 True channel_ipd) = ESP_OK"
    "received (sim7670g_tcp_receive modem_connected True 1023 True channel_ipd)
       = ''HTTP/1.1 200 OK'' @ CRLF"
    by code_simp+
  have "length (''HTTP/1.1 200 OK'' @ CRLF) = 17"
    by (simp add: CRLF_def)
  with tcp_receive_outcomes[OF conn, of 1023 channel_ipd] run show ?thesis
    by (simp add: Let_def)
qed

section \<open>WebSocket frames: encoding and the inbound parser\<close>

lemma bit_nat_less: "(n::nat) < 2 ^ m \<Longrightarrow> bit n k \<Longrightarrow> k < m"
  by (metis bit_take_bit_iff take_bit_nat_eq_self)

lemma len7_direct:
  assumes "n < 126"
  shows "(0x80 OR (ucast (of_nat n :: 32 word) :: byte)) AND 0x7F = of_nat n"
    and "unat ((0x80 OR (ucast (of_nat n :: 32 word) :: byte)) AND 0x7F) = n"
proof -
  have m: "(0x7F :: byte) = mask 7" by (simp add: mask_eq_exp_minus_1)
  have p: "(0x80 :: byte) = push_bit 7 1" by simp
  from assms have n: "n < 2 ^ 7" by simp
  have b: "bit (128 :: int) k \<longleftrightarrow> k = 7" for k
    using bit_exp_iff[where ?'a = int, of 7 k] by auto
  show eq: "(0x80 OR (ucast (of_nat n :: 32 word) :: byte)) AND 0x7F = of_nat n"
    unfolding m
    by (rule bit_word_eqI) (auto simp: bit_simps b dest: bit_nat_less[OF n])
  show "unat ((0x80 OR (ucast (of_nat n :: 32 word) :: byte)) AND 0x7F) = n"
    unfolding eq using assms by (simp add: unat_of_nat)
qed

lemma len16_extended:
  assumes "n < 65536"
  shows "unat (push_bit 8 (ucast (ucast (drop_bit 8 (of_nat n :: 32 word) AND 0xFF) :: byte) :: 32 word)
               OR ucast (ucast ((of_nat n :: 32 word) AND 0xFF) :: byte)) = n"
proof -
  have m: "(0xFF :: 32 word) = mask 8" by (simp add: mask_eq_exp_minus_1)
  from assms have n: "n < 2 ^ 16" by simp
  have "push_bit 8 (ucast (ucast (drop_bit 8 (of_nat n :: 32 word) AND 0xFF) :: byte) :: 32 word)
          OR ucast (ucast ((of_nat n :: 32 word) AND 0xFF) :: byte) = (of_nat n :: 32 word)"
    unfolding m
    by (rule bit_word_eqI) (auto simp: bit_simps dest: bit_nat_less[OF n])
  then show ?thesis using assms by (simp add: unat_of_nat)
qed

lemma marker_126: "unat (((0x80 :: byte) OR 126) AND 0x7F) = 126"
  by simp

lemma opcode_nibble: "((0x80 :: byte) OR (WS_OPCODE_TEXT AND 0x0F)) AND 0x0F = WS_OPCODE_TEXT"
  by (simp add: WS_OPCODE_TEXT_def)

lemma mask_payload_length [simp]: "length (mask_payload key p) = length p"
  by (simp add: mask_payload_def)

lemma mask_payload_involution: "mask_payload key (mask_payload key p) = p"
  by (rule nth_equalityI) (simp_all add: mask_payload_def xor.assoc)

lemma masking_key_length [simp]: "length (masking_key msk) = 4"
  by (simp add: masking_key_def)

lemma text_header_direct:
  assumes "length P < 126"
  shows "ws_frame WS_OPCODE_TEXT P msk =
           [0x81, 0x80 OR ucast (of_nat (length P) :: 32 word)] @ masking_key msk @
           mask_payload (masking_key msk) P"
  using assms by (simp add: ws_frame_def frame_header_def WS_OPCODE_TEXT_def)

lemma text_header_extended:
  assumes "126 \<le> length P" and "length P < 65536"
  shows "ws_frame WS_OPCODE_TEXT P msk =
           [0x81, 0xFE,
            ucast (drop_bit 8 (of_nat (length P) :: 32 word) AND 0xFF),
            ucast ((of_nat (length P) :: 32 word) AND 0xFF)] @ masking_key msk @
           mask_payload (masking_key msk) P"
  using assms by (simp add: ws_frame_def frame_header_def WS_OPCODE_TEXT_def Let_def)

lemma peer_unmask_direct:
  assumes "length P < 126"
  shows "peer_unmask (ws_frame WS_OPCODE_TEXT P msk) = [0x81, of_nat (length P)] @ P"
proof -
  let ?b1 = "0x80 OR ucast (of_nat (length P) :: 32 word) :: byte"
  have b1: "?b1 AND 0x7F = of_nat (length P)"
    using len7_direct[OF assms] by simp
  have u: "unat (of_nat (length P) :: byte) = length P"
    using assms by (simp add: unat_of_nat)
  show ?thesis
    unfolding text_header_direct[OF assms] peer_unmask_def
    using assms by (simp add: b1 u Let_def mask_payload_involution)
qed

lemma peer_unmask_extended:
  assumes "126 \<le> length P" and "length P < 65536"
  shows "peer_unmask (ws_frame WS_OPCODE_TEXT P msk) =
           [0x81, 126,
            ucast (drop_bit 8 (of_nat (length P) :: 32 word) AND 0xFF),
            ucast ((of_nat (length P) :: 32 word) AND 0xFF)] @ P"
  unfolding text_header_extended[OF assms] peer_unmask_def
  by (simp add: Let_def mask_payload_involution)

lemma parse_direct:
  assumes "length P < 126"
  shows "parse_frame ([0x81, of_nat (length P)] @ P @ tail) = Inr (WS_OPCODE_TEXT, 2, length P)"
proof -
  have "(of_nat (length P) :: byte) AND 0x7F = of_nat (length P)"
    using len7_direct(1)[OF assms] by (metis and.right_idem)
  moreover have "unat (of_nat (length P) :: byte) = length P"
    using assms by (simp add: unat_of_nat)
  ultimately show ?thesis
    using assms by (simp add: parse_frame_def peek_def WS_OPCODE_TEXT_def Let_def)
qed

lemma parse_extended:
  assumes "126 \<le> length P" and "length P < 65536"
  shows "parse_frame ([0x81, 126,
            ucast (drop_bit 8 (of_nat (length P) :: 32 word) AND 0xFF),
            ucast ((of_nat (length P) :: 32 word) AND 0xFF)] @ P @ tail)
         = Inr (WS_OPCODE_TEXT, 4, length P)"
  using len16_extended[OF assms(2)]
  by (simp add: parse_frame_def peek_def WS_OPCODE_TEXT_def Let_def)

section \<open>Sending through the TCP interface\<close>

lemma cipsend_6: "cipsend_command 6 = ''AT+CIPSEND=0,6''"
  by (simp add: cipsend_command_def snprintf_def dec_nat_numeral digit_char_def)

lemma cipsend_36: "cipsend_command 36 = ''AT+CIPSEND=0,36''"
  by (simp add: cipsend_command_def snprintf_def dec_nat_numeral digit_char_def)

lemma good_attempt:
  "send_attempt_once True 6 (good_send_attempt 6) = Inr Sent"
  "send_attempt_once True 36 (good_send_attempt 36) = Inr Sent"
  unfolding send_attempt_once_def cipsend_6 cipsend_36 by code_simp+

lemma has_binary_scan_in_bounds: "len \<le> length d \<Longrightarrow> \<exists>b. has_binary_scan d len = Inr b"
  by (auto simp: has_binary_scan_def)

lemma good_send:
  assumes "send_attempt_once True n (good_send_attempt m) = Inr Sent"
    and "length d = n" and "0 < n"
  shows "modem_tcp_send modem_connected (Some d) n (good_send_env m) = Inr ESP_OK"
proof -
  obtain b where bin: "has_binary_scan d n = Inr b"
    using has_binary_scan_in_bounds[of n d] assms(2) by auto
  have loop: "send_retry_loop True n (\<lambda>k. good_send_attempt m) 0 = Inr True"
    by (subst send_retry_loop.simps) (simp add: assms(1))
  show ?thesis
    using assms(2,3)
    by (simp add: modem_tcp_send_def sim7670g_tcp_send_def bin modem_connected_open loop
          good_send_env_def)
qed

lemma world_in_fields [simp]:
  "state (ws_client (world_in s)) = s"
  "modem (world_in s) = modem_connected"
  "tcp_out (world_in s) = []"
  "delivered (world_in s) = []"
  "ws_event_callback (config (ws_client (world_in s)))"
  "ping_timer (ws_client (world_in s)) = Some (Periodic 30000000)"
  by (simp_all add: world_in_def client_in_def client_config_def)

lemma tcp_handoff_sent:
  assumes "tcp_handoff w frame env = Inr (rc, w')"
  shows "w' = w\<lparr>tcp_out := tcp_out w @ [frame]\<rparr> \<and>
         modem_tcp_send (modem w) (Some frame) (length frame) env = Inr rc"
  using assms by (auto simp: tcp_handoff_def split: sum.splits)

lemma tcp_handoff_fault:
  assumes "tcp_handoff w frame env = Inl f"
  shows "modem_tcp_send (modem w) (Some frame) (length frame) env = Inl f"
  using assms by (auto simp: tcp_handoff_def split: sum.splits)

lemma send_at_command_no_copy:
  "\<exists>r. send_at_command ms command None env = Inr r"
  by (simp add: send_at_command_def Let_def)

lemma modem_tcp_disconnect_closes:
  "\<exists>ms'. modem_tcp_disconnect ms env = Inr (ESP_OK, ms') \<and> \<not> tcp_connected ms'"
proof (cases "tcp_connected ms")
  case False
  then show ?thesis
    by (simp add: modem_tcp_disconnect_def sim7670g_tcp_disconnect_def)
next
  case True
  obtain r where "send_at_command ms (Some ''AT+CIPCLOSE=0'') None env = Inr r"
    using send_at_command_no_copy by blast
  with True show ?thesis
    by (simp add: modem_tcp_disconnect_def sim7670g_tcp_disconnect_def clear_connection_def)
qed

lemma close_frame_handoff:
  "websocket_send_frame w WS_OPCODE_CLOSE None 0 msk env = tcp_handoff w (ws_frame WS_OPCODE_CLOSE [] msk) env"
  by (simp add: websocket_send_frame_def payload_bytes_def)

lemma esp_timer_stop_stopped: "esp_timer_stop t \<in> {None, Some Stopped}"
  by (cases t) (simp_all add: esp_timer_stop_def)

section \<open>Disconnect\<close>

text \<open>
  A disconnect need not return: when the first bytes read after the Close frame was
  written are the six of a bare "OK" line, the socket layer's scan for "SEND OK" runs
  with a wrapped bound and reads beyond the bytes received.
\<close>

lemma short_confirm_attempt_fault:
  "send_attempt_once True 6 short_confirm_attempt = Inl Out_Of_Bounds_Read"
  unfolding send_attempt_once_def cipsend_6 by code_simp

lemma websocket_client_disconnect_short_confirmation:
  "websocket_client_disconnect (world_in WS_STATE_CONNECTED) short_confirm_env
     = Inl Out_Of_Bounds_Read"
proof -
  let ?frame = "ws_frame WS_OPCODE_CLOSE [] 0x1A2B3C4D"
  have len: "length ?frame = 6"
    by (simp add: ws_frame_def frame_header_def mask_payload_def)
  obtain b where bin: "has_binary_scan ?frame 6 = Inr b"
    using has_binary_scan_in_bounds[of 6 ?frame] len by auto
  have loop: "send_retry_loop True 6 (\<lambda>k. short_confirm_attempt) 0 = Inl Out_Of_Bounds_Read"
    by (subst send_retry_loop.simps) (simp add: short_confirm_attempt_fault)
  have "modem_tcp_send modem_connected (Some ?frame) 6 (close_send short_confirm_env)
          = Inl Out_Of_Bounds_Read"
    using len
    by (simp add: modem_tcp_send_def sim7670g_tcp_send_def bin modem_connected_open loop
          short_confirm_env_def)
  then show ?thesis
    using len
    by (simp add: websocket_client_disconnect_def close_frame_handoff tcp_handoff_def
          short_confirm_env_def)
qed

text \<open>
  Claim C2, as stated, fails: from the Error state (ping timer still armed, socket still
  marked open) a disconnect returns success and changes nothing; the client is not
  Disconnected afterwards, the timer is not stopped, the socket is not closed and no event
  is emitted.
\<close>

theorem websocket_client_disconnect_error_state_counterexample:
  "websocket_client_disconnect (world_in WS_STATE_ERROR) close_env
     = Inr (ESP_OK, world_in WS_STATE_ERROR) \<and>
   state (ws_client (world_in WS_STATE_ERROR)) = WS_STATE_ERROR \<and>
   ping_timer (ws_client (world_in WS_STATE_ERROR)) = Some (Periodic 30000000) \<and>
   tcp_connected (modem (world_in WS_STATE_ERROR)) \<and>
   delivered (world_in WS_STATE_ERROR) = []"
  by (simp add: websocket_client_disconnect_def modem_connected_open)

text \<open>
  Claim C2, amended: in every state other than Connected (Disconnected, Connecting,
  Error) a disconnect is a successful no-op that leaves the client, the timers, the
  socket, the frames sent and the events untouched. From Connected, whenever it returns
  it returns success, the client is Disconnected, the ping and reconnect timers are
  stopped, the socket is closed, exactly one frame, the Close frame, has been handed to
  the TCP interface, and a Disconnected event has been emitted if a callback is
  configured. It returns whenever the TCP send of the Close frame returns, whatever that
  send's result; it has no defined result only when that send has none (the socket
  layer's scan of a short confirmation reads out of bounds).
\<close>

theorem websocket_client_disconnect_effect:
  "(state (ws_client w) \<noteq> WS_STATE_CONNECTED \<longrightarrow>
      websocket_client_disconnect w env = Inr (ESP_OK, w)) \<and>
   (state (ws_client w) = WS_STATE_CONNECTED \<longrightarrow>
      (\<forall>rc w'. websocket_client_disconnect w env = Inr (rc, w') \<longrightarrow>
         rc = ESP_OK \<and>
         state (ws_client w') = WS_STATE_DISCONNECTED \<and>
         ping_timer (ws_client w') \<in> {None, Some Stopped} \<and>
         reconnect_timer (ws_client w') \<in> {None, Some Stopped} \<and>
         \<not> tcp_connected (modem w') \<and>
         tcp_out w' = tcp_out w @ [ws_frame WS_OPCODE_CLOSE [] (close_mask env)] \<and>
         delivered w' =
           (if ws_event_callback (config (ws_client w))
            then delivered w @ [plain_event WS_EVENT_DISCONNECTED] else delivered w)) \<and>
      (\<forall>f. websocket_client_disconnect w env = Inl f \<longrightarrow>
         modem_tcp_send (modem w) (Some (ws_frame WS_OPCODE_CLOSE [] (close_mask env))) 6
           (close_send env) = Inl f) \<and>
      (\<forall>sent. modem_tcp_send (modem w) (Some (ws_frame WS_OPCODE_CLOSE [] (close_mask env))) 6
           (close_send env) = Inr sent \<longrightarrow>
         (\<exists>w'. websocket_client_disconnect w env = Inr (ESP_OK, w'))))"
proof (cases "state (ws_client w) = WS_STATE_CONNECTED")
  case False
  then show ?thesis by (simp add: websocket_client_disconnect_def)
next
  case conn: True
  define w1 where "w1 = w\<lparr>ws_client := (ws_client w)
                     \<lparr>ping_timer := esp_timer_stop (ping_timer (ws_client w)),
                      reconnect_timer := esp_timer_stop (reconnect_timer (ws_client w))\<rparr>\<rparr>"
  define frame where "frame = ws_frame WS_OPCODE_CLOSE [] (close_mask env)"
  have len: "length frame = 6"
    by (simp add: frame_def ws_frame_def frame_header_def mask_payload_def)
  have unfold: "websocket_client_disconnect w env =
      (case tcp_handoff w1 frame (close_send env) of
         Inl f \<Rightarrow> Inl f
       | Inr (sent, w2) \<Rightarrow>
           (case modem_tcp_disconnect (modem w2) (close_at env) of
              Inl f \<Rightarrow> Inl f
            | Inr (ret, ms') \<Rightarrow>
                Inr (ESP_OK, emit (plain_event WS_EVENT_DISCONNECTED)
                       (w2\<lparr>modem := ms',
                           ws_client := (ws_client w2)\<lparr>state := WS_STATE_DISCONNECTED\<rparr>\<rparr>))))"
    using conn
    by (simp add: websocket_client_disconnect_def close_frame_handoff w1_def frame_def Let_def
          split: sum.splits prod.splits)
  have fault: "modem_tcp_send (modem w) (Some frame) 6 (close_send env) = Inl f"
    if "websocket_client_disconnect w env = Inl f" for f
  proof (cases "tcp_handoff w1 frame (close_send env)")
    case (Inl g)
    with that unfold have "g = f" by simp
    with tcp_handoff_fault[OF Inl] len show ?thesis by (simp add: w1_def)
  next
    case (Inr res)
    obtain sent w2 where res: "res = (sent, w2)" by (cases res)
    obtain ms' where "modem_tcp_disconnect (modem w2) (close_at env) = Inr (ESP_OK, ms')"
      using modem_tcp_disconnect_closes by blast
    with that unfold Inr res show ?thesis by simp
  qed
  have ok: "rc = ESP_OK \<and>
         state (ws_client w') = WS_STATE_DISCONNECTED \<and>
         ping_timer (ws_client w') \<in> {None, Some Stopped} \<and>
         reconnect_timer (ws_client w') \<in> {None, Some Stopped} \<and>
         \<not> tcp_connected (modem w') \<and>
         tcp_out w' = tcp_out w @ [frame] \<and>
         delivered w' =
           (if ws_event_callback (config (ws_client w))
            then delivered w @ [plain_event WS_EVENT_DISCONNECTED] else delivered w)"
    if run: "websocket_client_disconnect w env = Inr (rc, w')" for rc w'
  proof (cases "tcp_handoff w1 frame (close_send env)")
    case (Inl g)
    with run unfold show ?thesis by simp
  next
    case (Inr res)
    obtain sent w2 where res: "res = (sent, w2)" by (cases res)
    from tcp_handoff_sent[OF Inr[unfolded res]]
    have w2: "w2 = w1\<lparr>tcp_out := tcp_out w1 @ [frame]\<rparr>" by simp
    obtain ms' where d: "modem_tcp_disconnect (modem w2) (close_at env) = Inr (ESP_OK, ms')"
      and closed: "\<not> tcp_connected ms'"
      using modem_tcp_disconnect_closes by blast
    from run unfold Inr res d
    have "rc = ESP_OK" and w': "w' = emit (plain_event WS_EVENT_DISCONNECTED)
                       (w2\<lparr>modem := ms',
                           ws_client := (ws_client w2)\<lparr>state := WS_STATE_DISCONNECTED\<rparr>\<rparr>)"
      by simp_all
    with closed esp_timer_stop_stopped[of "ping_timer (ws_client w)"]
      esp_timer_stop_stopped[of "reconnect_timer (ws_client w)"]
    show ?thesis
      by (auto simp: w' w2 w1_def emit_def)
  qed
  have returns: "\<exists>w'. websocket_client_disconnect w env = Inr (ESP_OK, w')"
    if sent: "modem_tcp_send (modem w) (Some frame) 6 (close_send env) = Inr sent" for sent
  proof (cases "websocket_client_disconnect w env")
    case (Inl f)
    from fault[OF Inl] sent show ?thesis by simp
  next
    case (Inr res)
    obtain rc w' where "res = (rc, w')" by (cases res)
    with Inr ok[of rc w'] show ?thesis by auto
  qed
  from conn fault ok returns show ?thesis unfolding frame_def by blast
qed

theorem websocket_client_disconnect_effect_witness:
  "map_sum id (\<lambda>(rc, w'). (rc, state (ws_client w'), tcp_connected (modem w'), delivered w'))
     (websocket_client_disconnect (world_in WS_STATE_CONNECTED) close_env)
   = Inr (ESP_OK, WS_STATE_DISCONNECTED, False, [plain_event WS_EVENT_DISCONNECTED])"
proof -
  let ?w = "world_in WS_STATE_CONNECTED"
  let ?frame = "ws_frame WS_OPCODE_CLOSE [] (close_mask close_env)"
  have len: "length ?frame = 6"
    by (simp add: ws_frame_def frame_header_def mask_payload_def)
  have sent: "modem_tcp_send (modem ?w) (Some ?frame) 6 (close_send close_env) = Inr ESP_OK"
    using good_send[OF good_attempt(1) len] by (simp add: close_env_def)
  note eff = websocket_client_disconnect_effect[of ?w close_env]
  obtain rc w' where run: "websocket_client_disconnect ?w close_env = Inr (rc, w')"
  proof (cases "websocket_client_disconnect ?w close_env")
    case (Inl f)
    with eff sent show ?thesis by simp
  next
    case (Inr res)
    with that show ?thesis by (cases res) simp
  qed
  with eff show ?thesis by simp
qed

section \<open>Frame round trip\<close>

lemma send_frame_text:
  assumes "n \<le> 1024" and "n \<le> length mem"
  shows "websocket_send_frame w WS_OPCODE_TEXT (Some mem) n msk env
           = tcp_handoff w (ws_frame WS_OPCODE_TEXT (take n mem) msk) env"
  using assms by (simp add: websocket_send_frame_def payload_bytes_def)

lemma send_frame_too_large:
  "1024 < n \<Longrightarrow> websocket_send_frame w opcode payload n msk env = Inr (ESP_ERR_INVALID_ARG, w)"
  by (simp add: websocket_send_frame_def)

lemma text_frame_parse:
  assumes "length P \<le> 1024"
  shows "parse_frame (peer_unmask (ws_frame WS_OPCODE_TEXT P msk) @ tail)
           = Inr (WS_OPCODE_TEXT, (if length P < 126 then 2 else 4), length P)"
    and "payload_slice (peer_unmask (ws_frame WS_OPCODE_TEXT P msk) @ tail)
           (if length P < 126 then 2 else 4) (length P) = P"
proof -
  show "parse_frame (peer_unmask (ws_frame WS_OPCODE_TEXT P msk) @ tail)
           = Inr (WS_OPCODE_TEXT, (if length P < 126 then 2 else 4), length P)"
  proof (cases "length P < 126")
    case True
    with parse_direct[OF True, of tail] show ?thesis
      by (simp add: peer_unmask_direct)
  next
    case False
    with assms have ext: "126 \<le> length P" "length P < 65536" by simp_all
    with parse_extended[OF ext, of tail] show ?thesis
      by (simp add: peer_unmask_extended)
  qed
  show "payload_slice (peer_unmask (ws_frame WS_OPCODE_TEXT P msk) @ tail)
           (if length P < 126 then 2 else 4) (length P) = P"
  proof (cases "length P < 126")
    case True
    then show ?thesis
      by (simp add: peer_unmask_direct payload_slice_def)
  next
    case False
    with assms have ext: "126 \<le> length P" "length P < 65536" by simp_all
    then show ?thesis
      by (simp add: peer_unmask_extended payload_slice_def)
  qed
qed

text \<open>
  Claim C6, as stated, fails in its second range: a payload of 1025 bytes, a length
  within [126, 65535), is not encoded at all; the send returns an argument error and
  nothing reaches the TCP interface.
\<close>

theorem text_frame_oversize_counterexample:
  "websocket_send_frame (world_in WS_STATE_CONNECTED) WS_OPCODE_TEXT
      (Some (replicate 1025 0x41)) 1025 0x1A2B3C4D (good_send_env 1033)
     = Inr (ESP_ERR_INVALID_ARG, world_in WS_STATE_CONNECTED) \<and>
   length (replicate 1025 (0x41 :: byte)) = 1025 \<and> (126 :: nat) \<le> 1025 \<and> (1025 :: nat) < 65535"
  by (simp add: websocket_send_frame_def)

text \<open>
  Claim C6, amended: for every payload of at most 1024 bytes the frame the send hands to
  the TCP interface, once the peer has removed the mask, is parsed by the client's own
  inbound parser as a Text frame of the payload's length whose payload bytes are exactly
  the payload, whatever follows the frame in the receive buffer; lengths below 126 sit in
  the length byte itself, lengths from 126 to 1024 use the marker 126 and a two-byte
  big-endian length; and a non-empty payload is delivered to the callback as a
  DataReceived event carrying these bytes. Longer payloads are rejected before encoding.
\<close>

theorem text_frame_roundtrip:
  assumes "length P \<le> 1024"
  shows "websocket_send_frame w WS_OPCODE_TEXT (Some P) (length P) msk env
           = tcp_handoff w (ws_frame WS_OPCODE_TEXT P msk) env \<and>
         parse_frame (peer_unmask (ws_frame WS_OPCODE_TEXT P msk) @ tail)
           = Inr (WS_OPCODE_TEXT, (if length P < 126 then 2 else 4), length P) \<and>
         payload_slice (peer_unmask (ws_frame WS_OPCODE_TEXT P msk) @ tail)
           (if length P < 126 then 2 else 4) (length P) = P \<and>
         (length P < 126 \<longrightarrow>
            unat (ws_frame WS_OPCODE_TEXT P msk ! 1 AND 0x7F) = length P) \<and>
         (126 \<le> length P \<longrightarrow>
            ws_frame WS_OPCODE_TEXT P msk ! 1 = 0x80 OR 126 \<and>
            unat (ws_frame WS_OPCODE_TEXT P msk ! 2) * 256 +
            unat (ws_frame WS_OPCODE_TEXT P msk ! 3) = length P) \<and>
         (0 < length P \<and> ws_event_callback (config (ws_client w)) \<longrightarrow>
            dispatch_frame w (peer_unmask (ws_frame WS_OPCODE_TEXT P msk) @ tail)
              (length (peer_unmask (ws_frame WS_OPCODE_TEXT P msk))) penv
            = Inr (ESP_OK, emit \<lparr>event = WS_EVENT_DATA_RECEIVED, data = Some P,
                                 data_len = length P, error_code = 0\<rparr> w))"
proof -
  note parse = text_frame_parse[OF assms, of msk tail]
  have send: "websocket_send_frame w WS_OPCODE_TEXT (Some P) (length P) msk env
           = tcp_handoff w (ws_frame WS_OPCODE_TEXT P msk) env"
    using send_frame_text[OF assms, of P w msk env] by simp
  have direct: "unat (ws_frame WS_OPCODE_TEXT P msk ! 1 AND 0x7F) = length P"
    if "length P < 126"
    using len7_direct(2)[OF that] by (simp add: text_header_direct[OF that])
  have ext: "ws_frame WS_OPCODE_TEXT P msk ! 1 = 0x80 OR 126 \<and>
            unat (ws_frame WS_OPCODE_TEXT P msk ! 2) * 256 +
            unat (ws_frame WS_OPCODE_TEXT P msk ! 3) = length P"
    if "126 \<le> length P"
  proof -
    from that assms have r: "126 \<le> length P" "length P < 65536" by simp_all
    have m: "(0xFF :: 32 word) = mask 8" by (simp add: mask_eq_exp_minus_1)
    have "unat (ucast (drop_bit 8 (of_nat (length P) :: 32 word) AND 0xFF) :: byte) * 256 +
          unat (ucast ((of_nat (length P) :: 32 word) AND 0xFF) :: byte) = length P"
      using r(2) unfolding m take_bit_eq_mask[symmetric]
      unfolding unsigned_ucast_eq unsigned_take_bit_eq unsigned_drop_bit_eq unsigned_of_nat
      by (simp add: take_bit_eq_mod drop_bit_eq_div)
    then show ?thesis
      by (simp add: text_header_extended[OF r])
  qed
  have disp: "dispatch_frame w (peer_unmask (ws_frame WS_OPCODE_TEXT P msk) @ tail)
              (length (peer_unmask (ws_frame WS_OPCODE_TEXT P msk))) penv
            = Inr (ESP_OK, emit \<lparr>event = WS_EVENT_DATA_RECEIVED, data = Some P,
                                 data_len = length P, error_code = 0\<rparr> w)"
    if "0 < length P" "ws_event_callback (config (ws_client w))"
  proof -
    have "(if length P < 126 then 2 else 4) < length (peer_unmask (ws_frame WS_OPCODE_TEXT P msk))"
      using that(1) assms
      by (cases "length P < 126") (simp_all add: peer_unmask_direct peer_unmask_extended)
    with that parse show ?thesis
      by (simp add: dispatch_frame_def WS_OPCODE_TEXT_def WS_OPCODE_BINARY_def)
  qed
  from send parse direct ext disp show ?thesis by blast
qed

theorem text_frame_roundtrip_witness:
  "parse_frame (peer_unmask (ws_frame WS_OPCODE_TEXT (replicate 200 0x41) 0x1A2B3C4D) @ [0])
     = Inr (WS_OPCODE_TEXT, 4, 200) \<and>
   payload_slice (peer_unmask (ws_frame WS_OPCODE_TEXT (replicate 200 0x41) 0x1A2B3C4D) @ [0]) 4 200
     = replicate 200 0x41"
  using text_frame_roundtrip[where P = "replicate 200 0x41" and msk = "0x1A2B3C4D" and tail = "[0]"]
  by simp

section \<open>Sending text\<close>

lemma c_strlen_terminated:
  "0 \<in> set mem \<Longrightarrow> c_strlen mem = Inr (length (takeWhile (\<lambda>b. b \<noteq> 0) mem))"
  by (simp add: c_strlen_def)

lemma log_string_terminated:
  "0 \<in> set mem \<Longrightarrow> log_string mem = Inr ()"
  by (simp add: log_string_def c_strlen_def)

lemma log_string_unterminated:
  "0 \<notin> set mem \<Longrightarrow> log_string mem = Inl Out_Of_Bounds_Read"
  by (simp add: log_string_def c_strlen_def)

lemma tcp_handoff_logs:
  "tcp_handoff w frame env = Inr (rc, w') \<Longrightarrow> tcp_out w' = tcp_out w @ [frame]"
  using tcp_handoff_sent[of w frame env rc w'] by simp

lemma takeWhile_filled:
  "takeWhile (\<lambda>b. b \<noteq> 0) (replicate n (0x41 :: byte) @ [0]) = replicate n 0x41"
  by (induction n) simp_all

text \<open>
  Claim C10, as stated, fails: a non-null, terminated message of 1025 characters sent
  while Connected with length argument 0 yields an argument error and no frame.
\<close>

theorem websocket_client_send_text_oversize_counterexample:
  "websocket_client_send_text (world_in WS_STATE_CONNECTED) (Some oversized_message) 0
      0x1A2B3C4D (good_send_env 1033)
     = Inr (ESP_ERR_INVALID_ARG, world_in WS_STATE_CONNECTED) \<and>
   c_strlen oversized_message = Inr 1025 \<and>
   tcp_out (world_in WS_STATE_CONNECTED) = []"
proof -
  have len: "c_strlen oversized_message = Inr 1025"
    by (simp add: c_strlen_def oversized_message_def takeWhile_filled del: takeWhile_append)
  have "0 \<in> set oversized_message"
    by (simp add: oversized_message_def)
  with len show ?thesis
    by (simp add: websocket_client_send_text_def send_frame_too_large log_string_terminated)
qed

text \<open>
  Claim C10, amended: outside the Connected state the send-text operation yields the
  invalid-state error, whatever the message. While Connected, a null message yields the
  argument error, and a message without a terminator inside its storage is read out of
  bounds, whatever the length argument. For a message string, that is a non-null message
  with its terminator: a non-zero length argument of at most 1024, within the message's
  storage, hands to the TCP interface a Text frame whose payload is exactly that many
  bytes from the start of the message; a zero length argument with at most 1024 characters
  before the terminator hands over a Text frame whose payload is the message up to its
  terminator, so of length strlen; and a length above 1024, given or computed, yields the
  argument error with nothing sent. The operation's outcome is that of handing the frame
  over: when the TCP send returns, the frame is appended to what the TCP interface was
  given and the operation's result is that of the TCP send.
\<close>

theorem websocket_client_send_text_behaviour:
  "(state (ws_client w) \<noteq> WS_STATE_CONNECTED \<longrightarrow>
      websocket_client_send_text w message len msk env = Inr (ESP_ERR_INVALID_STATE, w)) \<and>
   (state (ws_client w) = WS_STATE_CONNECTED \<longrightarrow>
      websocket_client_send_text w None len msk env = Inr (ESP_ERR_INVALID_ARG, w) \<and>
      (0 \<notin> set mem \<longrightarrow>
         websocket_client_send_text w (Some mem) len msk env = Inl Out_Of_Bounds_Read) \<and>
      (0 \<in> set mem \<and> 0 < len \<and> len \<le> 1024 \<and> len \<le> length mem \<longrightarrow>
         websocket_client_send_text w (Some mem) len msk env
           = tcp_handoff w (ws_frame WS_OPCODE_TEXT (take len mem) msk) env \<and>
         parse_frame (peer_unmask (ws_frame WS_OPCODE_TEXT (take len mem) msk))
           = Inr (WS_OPCODE_TEXT, (if len < 126 then 2 else 4), len)) \<and>
      (0 \<in> set mem \<and> 1024 < len \<longrightarrow>
         websocket_client_send_text w (Some mem) len msk env = Inr (ESP_ERR_INVALID_ARG, w)) \<and>
      (0 \<in> set mem \<and> length (takeWhile (\<lambda>b. b \<noteq> 0) mem) \<le> 1024 \<longrightarrow>
         websocket_client_send_text w (Some mem) 0 msk env
           = tcp_handoff w (ws_frame WS_OPCODE_TEXT (takeWhile (\<lambda>b. b \<noteq> 0) mem) msk) env \<and>
         parse_frame (peer_unmask (ws_frame WS_OPCODE_TEXT (takeWhile (\<lambda>b. b \<noteq> 0) mem) msk))
           = Inr (WS_OPCODE_TEXT,
                  (if length (takeWhile (\<lambda>b. b \<noteq> 0) mem) < 126 then 2 else 4),
                  length (takeWhile (\<lambda>b. b \<noteq> 0) mem))) \<and>
      (0 \<in> set mem \<and> 1024 < length (takeWhile (\<lambda>b. b \<noteq> 0) mem) \<longrightarrow>
         websocket_client_send_text w (Some mem) 0 msk env = Inr (ESP_ERR_INVALID_ARG, w))) \<and>
   (\<forall>frame rc w'. tcp_handoff w frame env = Inr (rc, w') \<longrightarrow>
      tcp_out w' = tcp_out w @ [frame] \<and>
      modem_tcp_send (modem w) (Some frame) (length frame) env = Inr rc)"
proof -
  let ?s = "takeWhile (\<lambda>b. b \<noteq> 0) mem"
  have closed: "state (ws_client w) \<noteq> WS_STATE_CONNECTED \<longrightarrow>
      websocket_client_send_text w message len msk env = Inr (ESP_ERR_INVALID_STATE, w)"
    by (simp add: websocket_client_send_text_def)
  have null: "state (ws_client w) = WS_STATE_CONNECTED \<longrightarrow>
      websocket_client_send_text w None len msk env = Inr (ESP_ERR_INVALID_ARG, w)"
    by (simp add: websocket_client_send_text_def)
  have open_end: "websocket_client_send_text w (Some mem) len msk env = Inl Out_Of_Bounds_Read"
    if "state (ws_client w) = WS_STATE_CONNECTED" "0 \<notin> set mem"
    using that
    by (simp add: websocket_client_send_text_def log_string_unterminated c_strlen_def)
  have explicit: "websocket_client_send_text w (Some mem) len msk env
           = tcp_handoff w (ws_frame WS_OPCODE_TEXT (take len mem) msk) env \<and>
         parse_frame (peer_unmask (ws_frame WS_OPCODE_TEXT (take len mem) msk))
           = Inr (WS_OPCODE_TEXT, (if len < 126 then 2 else 4), len)"
    if "state (ws_client w) = WS_STATE_CONNECTED" "0 \<in> set mem" "0 < len" "len \<le> 1024"
       "len \<le> length mem"
  proof -
    from that have l: "length (take len mem) = len" by simp
    from that(4) l have "length (take len mem) \<le> 1024" by simp
    from text_frame_parse(1)[OF this, of msk "[]"] l
    have "parse_frame (peer_unmask (ws_frame WS_OPCODE_TEXT (take len mem) msk))
           = Inr (WS_OPCODE_TEXT, (if len < 126 then 2 else 4), len)"
      by simp
    with that show ?thesis
      by (simp add: websocket_client_send_text_def send_frame_text log_string_terminated)
  qed
  have big: "websocket_client_send_text w (Some mem) len msk env = Inr (ESP_ERR_INVALID_ARG, w)"
    if "state (ws_client w) = WS_STATE_CONNECTED" "0 \<in> set mem" "1024 < len"
    using that
    by (simp add: websocket_client_send_text_def send_frame_too_large log_string_terminated)
  have auto_len: "websocket_client_send_text w (Some mem) 0 msk env
           = tcp_handoff w (ws_frame WS_OPCODE_TEXT ?s msk) env \<and>
         parse_frame (peer_unmask (ws_frame WS_OPCODE_TEXT ?s msk))
           = Inr (WS_OPCODE_TEXT, (if length ?s < 126 then 2 else 4), length ?s)"
    if "state (ws_client w) = WS_STATE_CONNECTED" "0 \<in> set mem" "length ?s \<le> 1024"
  proof -
    have t: "take (length ?s) mem = ?s"
      by (metis append_eq_conv_conj takeWhile_dropWhile_id)
    have "length ?s \<le> length mem"
      by (rule length_takeWhile_le)
    with that t text_frame_parse(1)[OF that(3), of msk "[]"] show ?thesis
      by (simp add: websocket_client_send_text_def c_strlen_terminated send_frame_text
            log_string_terminated)
  qed
  have auto_big: "websocket_client_send_text w (Some mem) 0 msk env = Inr (ESP_ERR_INVALID_ARG, w)"
    if "state (ws_client w) = WS_STATE_CONNECTED" "0 \<in> set mem" "1024 < length ?s"
    using that
    by (simp add: websocket_client_send_text_def c_strlen_terminated send_frame_too_large
          log_string_terminated)
  have handoff: "\<forall>frame rc w'. tcp_handoff w frame env = Inr (rc, w') \<longrightarrow>
      tcp_out w' = tcp_out w @ [frame] \<and>
      modem_tcp_send (modem w) (Some frame) (length frame) env = Inr rc"
    by (auto simp: tcp_handoff_def split: sum.splits)
  from closed null open_end explicit big auto_len auto_big handoff show ?thesis
    by blast
qed

theorem websocket_client_send_text_behaviour_witness:
  "map_sum id (\<lambda>(rc, w'). (rc, tcp_out w'))
     (websocket_client_send_text (world_in WS_STATE_CONNECTED) (Some greeting) 0 0x1A2B3C4D
        (good_send_env 36))
   = Inr (ESP_OK, [ws_frame WS_OPCODE_TEXT (map of_char ''ESP32 with SIM7670G connected!'') 0x1A2B3C4D])"
proof -
  let ?w = "world_in WS_STATE_CONNECTED"
  let ?p = "map of_char ''ESP32 with SIM7670G connected!'' :: byte list"
  let ?frame = "ws_frame WS_OPCODE_TEXT ?p 0x1A2B3C4D"
  have nul: "0 \<in> set greeting"
    by (simp add: greeting_def)
  have s: "takeWhile (\<lambda>b. b \<noteq> 0) greeting = ?p"
    by (simp add: greeting_def)
  have len: "length ?frame = 36"
    by (simp add: ws_frame_def frame_header_def)
  have sent: "modem_tcp_send (modem ?w) (Some ?frame) (length ?frame) (good_send_env 36) = Inr ESP_OK"
    using good_send[OF good_attempt(2) len] len by simp
  then have h: "tcp_handoff ?w ?frame (good_send_env 36)
                  = Inr (ESP_OK, ?w\<lparr>tcp_out := tcp_out ?w @ [?frame]\<rparr>)"
    by (simp add: tcp_handoff_def)
  from websocket_client_send_text_behaviour[of ?w _ _ "0x1A2B3C4D" "good_send_env 36" greeting]
    nul s h
  show ?thesis by simp
qed

end
